theory Spec2Isabelle
  imports Main
begin

section \<open>JavaScript strings\<close>

text \<open>
  A JavaScript string is a sequence of UTF-16 code units. A code unit is modelled by its
  number (a natural number below 65536), so that every string a request can carry is a
  value of the model; \<open>js\<close> writes an ASCII literal of the source as such a sequence.
\<close>

type_synonym jsstring = "nat list"

definition js :: "string \<Rightarrow> jsstring" where
  "js s = map of_char s"

text \<open>The \<open>||\<close> operator on an optional string: \<open>undefined\<close> and the empty string are falsy.\<close>

definition truthy :: "jsstring option \<Rightarrow> bool" where
  "truthy x = (case x of None \<Rightarrow> False | Some s \<Rightarrow> s \<noteq> [])"

definition or_default :: "jsstring option \<Rightarrow> jsstring \<Rightarrow> jsstring" where
  "or_default x d = (case x of None \<Rightarrow> d | Some s \<Rightarrow> if s = [] then d else s)"

section \<open>The colour pattern\<close>

text \<open>
  The regular expression of \<open>parseRGBColor\<close> is
  \<^verbatim>\<open>/rgb\((\d+),\s*(\d+),\s*(\d+)\)/\<close>.
  \<open>\d\<close> is an ASCII digit; \<open>\s\<close> is the white space and line terminators of ECMAScript.
\<close>

definition is_digit :: "nat \<Rightarrow> bool" where
  "is_digit c = (48 \<le> c \<and> c \<le> 57)"

definition is_space :: "nat \<Rightarrow> bool" where
  "is_space c =
     (c \<in> {9, 10, 11, 12, 13, 32, 160, 5760, 8232, 8233, 8239, 8287, 12288, 65279}
      \<or> (8192 \<le> c \<and> c \<le> 8202))"

text \<open>A literal of the pattern: the rest of the input after it, when the input starts with it.\<close>

definition expect :: "jsstring \<Rightarrow> jsstring \<Rightarrow> jsstring option" where
  "expect lit s = (if take (length lit) s = lit then Some (drop (length lit) s) else None)"

text \<open>
  \<open>(\d+)\<close>: the longest run of digits, which must not be empty. A shorter run never
  helps the match, since what follows the group in the pattern is not a digit.
\<close>

definition digits1 :: "jsstring \<Rightarrow> (jsstring \<times> jsstring) option" where
  "digits1 s =
     (let d = takeWhile is_digit s
      in if d = [] then None else Some (d, dropWhile is_digit s))"

text \<open>
  The pattern tried at the start of the input; \<open>\s*\<close> skips the longest run of white
  space, which is followed by a digit in the pattern. The result is the three groups.
\<close>

definition rgb_at :: "jsstring \<Rightarrow> (jsstring \<times> jsstring \<times> jsstring) option" where
  "rgb_at s =
     (case expect (js ''rgb('') s of None \<Rightarrow> None | Some s1 \<Rightarrow>
      case digits1 s1 of None \<Rightarrow> None | Some (m1, s2) \<Rightarrow>
      case expect (js '','') s2 of None \<Rightarrow> None | Some s3 \<Rightarrow>
      case digits1 (dropWhile is_space s3) of None \<Rightarrow> None | Some (m2, s4) \<Rightarrow>
      case expect (js '','') s4 of None \<Rightarrow> None | Some s5 \<Rightarrow>
      case digits1 (dropWhile is_space s5) of None \<Rightarrow> None | Some (m3, s6) \<Rightarrow>
      case expect (js '')'') s6 of None \<Rightarrow> None | Some _ \<Rightarrow> Some (m1, m2, m3))"

text \<open>\<open>String.prototype.match\<close> with a pattern that is not anchored: the leftmost match.\<close>

fun rgb_match :: "jsstring \<Rightarrow> (jsstring \<times> jsstring \<times> jsstring) option" where
  "rgb_match [] = rgb_at []"
| "rgb_match (c # cs) =
     (case rgb_at (c # cs) of Some m \<Rightarrow> Some m | None \<Rightarrow> rgb_match cs)"

text \<open>
  \<open>parseInt\<close> on a group of the pattern, a non-empty run of decimal digits: the number
  the digits write. (The Number that JavaScript returns is this number exactly up to
  \<open>2 ^ 53\<close>; above, it is the nearest double.)
\<close>

definition parseInt :: "jsstring \<Rightarrow> nat" where
  "parseInt d = foldl (\<lambda>acc c. 10 * acc + (c - 48)) 0 d"

record rgb =
  r :: nat
  g :: nat
  b :: nat

definition DEFAULT_BACKGROUND_COLOR :: jsstring where
  "DEFAULT_BACKGROUND_COLOR = js ''rgb(41, 128, 185)''"

function (domintros) parseRGBColor :: "jsstring \<Rightarrow> rgb" where
  "parseRGBColor rgbString =
     (case rgb_match rgbString of
        None \<Rightarrow> parseRGBColor DEFAULT_BACKGROUND_COLOR
      | Some (m1, m2, m3) \<Rightarrow> \<lparr>r = parseInt m1, g = parseInt m2, b = parseInt m3\<rparr>)"
  by pat_completeness auto

termination parseRGBColor
proof (relation "measure (\<lambda>s. if rgb_match s = None then 1 else 0)")
  show "wf (measure (\<lambda>s. if rgb_match s = None then (1::nat) else 0))"
    by simp
next
  fix rgbString
  assume "rgb_match rgbString = None"
  moreover have "rgb_match DEFAULT_BACKGROUND_COLOR \<noteq> None"
    by (simp add: DEFAULT_BACKGROUND_COLOR_def js_def rgb_at_def expect_def digits1_def
        is_digit_def is_space_def)
  ultimately show "(DEFAULT_BACKGROUND_COLOR, rgbString)
      \<in> measure (\<lambda>s. if rgb_match s = None then (1::nat) else 0)"
    by simp
qed

declare parseRGBColor.simps [simp del]

text \<open>What the pattern describes, stated without the matcher.\<close>

definition digits :: "jsstring \<Rightarrow> bool" where
  "digits d = (d \<noteq> [] \<and> (\<forall>c \<in> set d. is_digit c))"

definition spaces :: "jsstring \<Rightarrow> bool" where
  "spaces w = (\<forall>c \<in> set w. is_space c)"

definition rgb_form :: "jsstring \<Rightarrow> jsstring \<Rightarrow> jsstring \<Rightarrow> jsstring \<Rightarrow> jsstring \<Rightarrow> jsstring" where
  "rgb_form d1 w1 d2 w2 d3 =
     js ''rgb('' @ d1 @ js '','' @ w1 @ d2 @ js '','' @ w2 @ d3 @ js '')''"

definition contains_rgb :: "jsstring \<Rightarrow> bool" where
  "contains_rgb s =
     (\<exists>pre d1 w1 d2 w2 d3 post.
        digits d1 \<and> digits d2 \<and> digits d3 \<and> spaces w1 \<and> spaces w2 \<and>
        s = pre @ rgb_form d1 w1 d2 w2 d3 @ post)"

section \<open>Numbers as text\<close>

text \<open>\<open>Number.prototype.toString\<close> on a non-negative integer: its decimal digits.\<close>

fun toString :: "nat \<Rightarrow> jsstring" where
  "toString n = (if n < 10 then [48 + n] else toString (n div 10) @ [48 + n mod 10])"

declare toString.simps [simp del]

section \<open>Dates\<close>

text \<open>
  The handler calls \<open>new Date(expiryDate)\<close>, \<open>getDate\<close> and \<open>setDate\<close>, and
  \<open>JSON.stringify\<close> writes the date with \<open>toJSON\<close>. These are defined as ECMAScript
  defines them, on time values: milliseconds since the epoch, in UTC. Division on
  \<open>int\<close> rounds down, as \<open>floor\<close> does in the standard.
\<close>

definition msPerDay :: int where
  "msPerDay = 86400000"

definition Day :: "int \<Rightarrow> int" where
  "Day t = t div msPerDay"

definition TimeWithinDay :: "int \<Rightarrow> int" where
  "TimeWithinDay t = t mod msPerDay"

definition DaysInYear :: "int \<Rightarrow> int" where
  "DaysInYear y =
     (if y mod 4 \<noteq> 0 then 365 else if y mod 100 \<noteq> 0 then 366
      else if y mod 400 \<noteq> 0 then 365 else 366)"

definition DayFromYear :: "int \<Rightarrow> int" where
  "DayFromYear y =
     365 * (y - 1970) + (y - 1969) div 4 - (y - 1901) div 100 + (y - 1601) div 400"

text \<open>
  \<open>YearFromTime t\<close> is the largest year that starts on or before day \<open>Day t\<close>. It is
  found by going down from a year that is not before it; the year that bounds the search
  from below is never reached (see \<open>YearFromTime_bounds\<close>).
\<close>

function year_search :: "int \<Rightarrow> int \<Rightarrow> int \<Rightarrow> int" where
  "year_search d lo y =
     (if y \<le> lo \<or> DayFromYear y \<le> d then y else year_search d lo (y - 1))"
  by pat_completeness auto

termination year_search
  by (relation "measure (\<lambda>(d, lo, y). nat (y - lo))") auto

declare year_search.simps [simp del]

definition YearFromTime :: "int \<Rightarrow> int" where
  "YearFromTime t =
     (let d = Day t
      in year_search d (1969 + min (d div 365) (d div 366))
           (1970 + max (d div 365) (d div 366)))"

definition InLeapYear :: "int \<Rightarrow> bool" where
  "InLeapYear t = (DaysInYear (YearFromTime t) = 366)"

definition DayWithinYear :: "int \<Rightarrow> int" where
  "DayWithinYear t = Day t - DayFromYear (YearFromTime t)"

text \<open>The day within the year on which month \<open>m\<close> (0 to 11) starts; 12 is the next year.\<close>

definition month_start :: "bool \<Rightarrow> int \<Rightarrow> int" where
  "month_start leap m =
     [0, 31, 59, 90, 120, 151, 181, 212, 243, 273, 304, 334, 365] ! nat m
       + (if leap \<and> 2 \<le> m then 1 else 0)"

definition MonthFromTime :: "int \<Rightarrow> int" where
  "MonthFromTime t =
     (let d = DayWithinYear t; l = InLeapYear t
      in if d < month_start l 1 then 0 else if d < month_start l 2 then 1
         else if d < month_start l 3 then 2 else if d < month_start l 4 then 3
         else if d < month_start l 5 then 4 else if d < month_start l 6 then 5
         else if d < month_start l 7 then 6 else if d < month_start l 8 then 7
         else if d < month_start l 9 then 8 else if d < month_start l 10 then 9
         else if d < month_start l 11 then 10 else 11)"

text \<open>The table of \<open>MonthFromTime\<close>, as a function of the day within the year.\<close>

definition month_of :: "bool \<Rightarrow> int \<Rightarrow> int" where
  "month_of l d =
     (if d < month_start l 1 then 0 else if d < month_start l 2 then 1
      else if d < month_start l 3 then 2 else if d < month_start l 4 then 3
      else if d < month_start l 5 then 4 else if d < month_start l 6 then 5
      else if d < month_start l 7 then 6 else if d < month_start l 8 then 7
      else if d < month_start l 9 then 8 else if d < month_start l 10 then 9
      else if d < month_start l 11 then 10 else 11)"

definition DateFromTime :: "int \<Rightarrow> int" where
  "DateFromTime t = DayWithinYear t - month_start (InLeapYear t) (MonthFromTime t) + 1"

definition HourFromTime :: "int \<Rightarrow> int" where
  "HourFromTime t = (t div 3600000) mod 24"

definition MinFromTime :: "int \<Rightarrow> int" where
  "MinFromTime t = (t div 60000) mod 60"

definition SecFromTime :: "int \<Rightarrow> int" where
  "SecFromTime t = (t div 1000) mod 60"

definition msFromTime :: "int \<Rightarrow> int" where
  "msFromTime t = t mod 1000"

text \<open>
  \<open>MakeDay year month date\<close>: the day number of the first of the month, plus
  \<open>date - 1\<close>; a month outside 0 to 11 carries into the year.
\<close>

definition MakeDay :: "int \<Rightarrow> int \<Rightarrow> int \<Rightarrow> int" where
  "MakeDay year month date =
     (let ym = year + month div 12; mn = month mod 12
      in DayFromYear ym + month_start (DaysInYear ym = 366) mn + date - 1)"

definition MakeDate :: "int \<Rightarrow> int \<Rightarrow> int" where
  "MakeDate day time = day * msPerDay + time"

text \<open>A time value out of the range of \<open>Date\<close> is \<open>NaN\<close>, here \<open>None\<close>.\<close>

definition TimeClip :: "int \<Rightarrow> int option" where
  "TimeClip t = (if \<bar>t\<bar> > 8640000000000000 then None else Some t)"

text \<open>
  The time zone of the server is a parameter: \<open>tz t True\<close> is the offset of local time
  at the UTC time value \<open>t\<close>, \<open>tz t False\<close> the offset at the local time value \<open>t\<close>
  (\<open>LocalTZA\<close> of the standard).
\<close>

type_synonym LocalTZA = "int \<Rightarrow> bool \<Rightarrow> int"

definition LocalTime :: "LocalTZA \<Rightarrow> int \<Rightarrow> int" where
  "LocalTime tz t = t + tz t True"

definition UTC :: "LocalTZA \<Rightarrow> int \<Rightarrow> int" where
  "UTC tz t = t - tz t False"

text \<open>A \<open>Date\<close> object is its time value, or \<open>None\<close> for an invalid date.\<close>

type_synonym date = "int option"

definition getDate :: "LocalTZA \<Rightarrow> date \<Rightarrow> int option" where
  "getDate tz this = (case this of None \<Rightarrow> None | Some t \<Rightarrow> Some (DateFromTime (LocalTime tz t)))"

definition setDate :: "LocalTZA \<Rightarrow> date \<Rightarrow> int option \<Rightarrow> date" where
  "setDate tz this date =
     (case this of None \<Rightarrow> None | Some t0 \<Rightarrow>
      case date of None \<Rightarrow> None | Some dt \<Rightarrow>
        let t = LocalTime tz t0;
            newDate = MakeDate (MakeDay (YearFromTime t) (MonthFromTime t) dt) (TimeWithinDay t)
        in TimeClip (UTC tz newDate))"

text \<open>
  \<open>Date.parse\<close>. The standard fixes the result on its own date format; the form
  \<open>YYYY-MM-DD\<close> with a month and a day that exist is midnight UTC of that day. What any
  other text parses to is left to the engine, and is a parameter.
\<close>

definition parse_date_only :: "jsstring \<Rightarrow> int option" where
  "parse_date_only s =
     (if length s = 10 \<and> list_all is_digit (take 4 s) \<and> s ! 4 = 45
         \<and> list_all is_digit (take 2 (drop 5 s)) \<and> s ! 7 = 45
         \<and> list_all is_digit (drop 8 s)
      then
        let y = int (parseInt (take 4 s));
            m = int (parseInt (take 2 (drop 5 s)));
            d = int (parseInt (drop 8 s));
            leap = (DaysInYear y = 366)
        in if 1 \<le> m \<and> m \<le> 12 \<and> 1 \<le> d \<and> d \<le> month_start leap m - month_start leap (m - 1)
           then Some (MakeDate (MakeDay y (m - 1) d) 0)
           else None
      else None)"

definition Date_parse :: "(jsstring \<Rightarrow> int option) \<Rightarrow> jsstring \<Rightarrow> int option" where
  "Date_parse other s = (case parse_date_only s of Some t \<Rightarrow> Some t | None \<Rightarrow> other s)"

definition new_Date :: "(jsstring \<Rightarrow> int option) \<Rightarrow> jsstring \<Rightarrow> date" where
  "new_Date other s = (case Date_parse other s of None \<Rightarrow> None | Some t \<Rightarrow> TimeClip t)"

text \<open>\<open>toISOString\<close>, and \<open>toJSON\<close>, which writes an invalid date as \<open>null\<close> (\<open>None\<close>).\<close>

definition pad :: "nat \<Rightarrow> int \<Rightarrow> jsstring" where
  "pad w n = (let ds = toString (nat n) in replicate (w - length ds) 48 @ ds)"

definition toISOString :: "int \<Rightarrow> jsstring" where
  "toISOString t =
     (let y = YearFromTime t
      in (if 0 \<le> y \<and> y \<le> 9999 then pad 4 y
          else (if y < 0 then js ''-'' else js ''+'') @ pad 6 \<bar>y\<bar>)
         @ js ''-'' @ pad 2 (MonthFromTime t + 1) @ js ''-'' @ pad 2 (DateFromTime t)
         @ js ''T'' @ pad 2 (HourFromTime t) @ js '':'' @ pad 2 (MinFromTime t)
         @ js '':'' @ pad 2 (SecFromTime t) @ js ''.'' @ pad 3 (msFromTime t) @ js ''Z'')"

definition toJSON :: "date \<Rightarrow> jsstring option" where
  "toJSON this = (case this of None \<Rightarrow> None | Some t \<Rightarrow> Some (toISOString t))"

text \<open>
  The calendar date of a time value in UTC, as \<open>toISOString\<close> prints it: year, month
  (1 to 12) and day. The day after a date, and the date a text \<open>YYYY-MM-DD\<close> writes.
\<close>

definition civil_date :: "int \<Rightarrow> int \<times> int \<times> int" where
  "civil_date t = (YearFromTime t, MonthFromTime t + 1, DateFromTime t)"

definition days_in_month :: "int \<Rightarrow> int \<Rightarrow> int" where
  "days_in_month y m =
     month_start (DaysInYear y = 366) m - month_start (DaysInYear y = 366) (m - 1)"

fun next_day :: "int \<times> int \<times> int \<Rightarrow> int \<times> int \<times> int" where
  "next_day (y, m, d) =
     (if d < days_in_month y m then (y, m, d + 1)
      else if m < 12 then (y, m + 1, 1) else (y + 1, 1, 1))"

definition written_date :: "jsstring \<Rightarrow> int \<times> int \<times> int" where
  "written_date s =
     (int (parseInt (take 4 s)), int (parseInt (take 2 (drop 5 s))), int (parseInt (drop 8 s)))"

section \<open>The request, the template and the manifest\<close>

text \<open>
  The body of a request, with the scheme and host the download URL is built from. A field
  that the body does not carry is \<open>undefined\<close>, here \<open>None\<close>.
\<close>

record request =
  expiryDate :: "jsstring option"
  serviceType :: "jsstring option"
  discount :: "jsstring option"
  backgroundColor :: "jsstring option"
  stripImage :: "jsstring option"
  protocol :: jsstring
  host :: jsstring

datatype jsval = JUndefined | JString jsstring | JDate date

definition to_jsval :: "jsstring option \<Rightarrow> jsval" where
  "to_jsval x = (case x of None \<Rightarrow> JUndefined | Some s \<Rightarrow> JString s)"

text \<open>A display field of the pass; the handler writes its \<open>value\<close> only.\<close>

record pass_field =
  key :: jsstring
  label :: "jsstring option"
  fvalue :: jsval

record barcode =
  message :: jsstring
  format :: jsstring
  messageEncoding :: jsstring
  altText :: jsstring

record coupon =
  headerFields :: "pass_field list"
  primaryFields :: "pass_field list"
  secondaryFields :: "pass_field list"

text \<open>
  \<open>pass.json\<close>: the template read from \<open>models/pass.json\<close>, and the manifest the
  handler makes of it. The template file is not part of the sources; it is a parameter.
\<close>

record PassJson =
  serialNumber :: jsstring
  barcode :: barcode
  barcodes :: "barcode list"
  backgroundColor :: jsstring
  coupon :: coupon

datatype error =
  ImageProcessingFailed | TemplateLoadFailed | TypeError | AssetReadFailed
  | SigningFailed | WriteFailed

text \<open>
  What is outside the handler in one run of it: the clock, the template, whether the
  image library, given the image of this base64 text, makes a strip of it and writes it
  to this path, whether the icons are read, whether the signing library, given the
  certificates and this manifest, returns an archive, whether the directory and the
  archive are written, the time zone and the date parser of the engine.
\<close>

record env =
  now :: nat
  template :: "PassJson option"
  sharp_ok :: "jsstring \<Rightarrow> jsstring \<Rightarrow> bool"
  icons_ok :: bool
  PKPass_ok :: "PassJson \<Rightarrow> bool"
  writeFile_ok :: bool
  tz :: LocalTZA
  other_date_formats :: "jsstring \<Rightarrow> int option"

text \<open>
  The files the handler writes and deletes: the three strips in \<open>/tmp\<close>, with the colour
  laid over the two larger ones, and the signed archive of a manifest, with or without
  strips.
\<close>

datatype stored_file = Strip | StripTinted rgb | Pkpass PassJson bool

type_synonym fs = "jsstring \<rightharpoonup> stored_file"

record strip_paths =
  strip :: jsstring
  strip2x :: jsstring
  strip3x :: jsstring

datatype response = Success jsstring jsstring | Failure error

section \<open>The handler\<close>

text \<open>\<open>path.join\<close> of a directory and a file name that need no normalising.\<close>

definition path_join :: "jsstring \<Rightarrow> jsstring \<Rightarrow> jsstring" where
  "path_join dir name = dir @ js ''/'' @ name"

text \<open>
  \<open>processBase64Image\<close>: the three strips are written one after the other, and the
  first step that fails ends the function with an error; what was written stays.
\<close>

definition processBase64Image :: "env \<Rightarrow> jsstring \<Rightarrow> jsstring \<Rightarrow> fs \<Rightarrow> (error + strip_paths) \<times> fs" where
  "processBase64Image e base64String bg fs0 =
     (let outputDir = js ''/tmp'' in
      if \<not> sharp_ok e base64String (path_join outputDir (js ''strip.png''))
      then (Inl ImageProcessingFailed, fs0)
      else
        let fs1 = fs0(path_join outputDir (js ''strip.png'') \<mapsto> Strip);
            tint2 = parseRGBColor (or_default (Some bg) DEFAULT_BACKGROUND_COLOR)
        in if \<not> sharp_ok e base64String (path_join outputDir (js ''strip@2x.png''))
        then (Inl ImageProcessingFailed, fs1)
        else
          let fs2 = fs1(path_join outputDir (js ''strip@2x.png'') \<mapsto> StripTinted tint2);
              tint3 = parseRGBColor (or_default (Some bg) DEFAULT_BACKGROUND_COLOR)
          in if \<not> sharp_ok e base64String (path_join outputDir (js ''strip@3x.png''))
          then (Inl ImageProcessingFailed, fs2)
          else
            (Inr \<lparr>strip = path_join outputDir (js ''strip.png''),
                  strip2x = path_join outputDir (js ''strip@2x.png''),
                  strip3x = path_join outputDir (js ''strip@3x.png'')\<rparr>,
             fs2(path_join outputDir (js ''strip@3x.png'') \<mapsto> StripTinted tint3)))"

text \<open>The three steps of \<open>processBase64Image\<close> all succeed on this image.\<close>

definition strips_ok :: "env \<Rightarrow> jsstring \<Rightarrow> bool" where
  "strips_ok e img =
     (sharp_ok e img (js ''/tmp/strip.png'') \<and> sharp_ok e img (js ''/tmp/strip@2x.png'')
      \<and> sharp_ok e img (js ''/tmp/strip@3x.png''))"

text \<open>\<open>cleanupFiles\<close>: each file of the list that exists is deleted; deleting succeeds.\<close>

definition cleanupFiles :: "jsstring list \<Rightarrow> fs \<Rightarrow> fs" where
  "cleanupFiles files fs0 =
     fold (\<lambda>file fs1. if file \<in> dom fs1 then fs1(file := None) else fs1) files fs0"

text \<open>\<open>Date.now().toString()\<close> and the download URL.\<close>

definition uniqueId :: "env \<Rightarrow> jsstring" where
  "uniqueId e = toString (now e)"

definition downloadUrl :: "env \<Rightarrow> request \<Rightarrow> jsstring" where
  "downloadUrl e req =
     protocol req @ js ''://'' @ host req @ js ''/passes/'' @ uniqueId e @ js ''.pkpass''"

text \<open>
  \<open>slot[0].value = v\<close>: a template with no field in the slot makes the assignment
  throw.
\<close>

definition set_value0 :: "pass_field list \<Rightarrow> jsval \<Rightarrow> error + pass_field list" where
  "set_value0 slot v =
     (case slot of [] \<Rightarrow> Inl TypeError | f # rest \<Rightarrow> Inr (f\<lparr>fvalue := v\<rparr> # rest))"

definition the_barcode :: "env \<Rightarrow> request \<Rightarrow> barcode" where
  "the_barcode e req =
     \<lparr>message = downloadUrl e req, format = js ''PKBarcodeFormatQR'',
      messageEncoding = js ''iso-8859-1'', altText = js ''QR code''\<rparr>"

text \<open>The date written to the header field: the expiry date, moved on by one day.\<close>

definition expirationDate :: "env \<Rightarrow> jsstring \<Rightarrow> date" where
  "expirationDate e s =
     (let d = new_Date (other_date_formats e) s
      in setDate (tz e) d (map_option (\<lambda>n. n + 1) (getDate (tz e) d)))"

text \<open>
  The part of the handler that reads the template and fills it in: serial number and
  barcodes, background colour, discount, service type, expiry date.
\<close>

definition build_pass :: "env \<Rightarrow> request \<Rightarrow> error + PassJson" where
  "build_pass e req =
     (case template e of None \<Rightarrow> Inl TemplateLoadFailed | Some passJson0 \<Rightarrow>
      let passJson1 = passJson0\<lparr>serialNumber := uniqueId e,
                                barcode := the_barcode e req,
                                barcodes := [the_barcode e req],
                                backgroundColor :=
                                  or_default (request.backgroundColor req) DEFAULT_BACKGROUND_COLOR\<rparr>
      in
      case set_value0 (primaryFields (coupon passJson1)) (to_jsval (discount req)) of
        Inl err \<Rightarrow> Inl err
      | Inr pf \<Rightarrow>
      case (if truthy (serviceType req)
            then set_value0 (secondaryFields (coupon passJson1)) (to_jsval (serviceType req))
            else Inr (secondaryFields (coupon passJson1))) of
        Inl err \<Rightarrow> Inl err
      | Inr sf \<Rightarrow>
      case (case expiryDate req of
              None \<Rightarrow> Inr (headerFields (coupon passJson1))
            | Some s \<Rightarrow>
                if s = [] then Inr (headerFields (coupon passJson1))
                else set_value0 (headerFields (coupon passJson1)) (JDate (expirationDate e s))) of
        Inl err \<Rightarrow> Inl err
      | Inr hf \<Rightarrow>
          Inr (passJson1\<lparr>coupon := \<lparr>headerFields = hf, primaryFields = pf, secondaryFields = sf\<rparr>\<rparr>))"

text \<open>The strips are made first, when the request carries an image.\<close>

definition process_strip :: "env \<Rightarrow> request \<Rightarrow> fs \<Rightarrow> (error + strip_paths option) \<times> fs \<times> jsstring list" where
  "process_strip e req fs0 =
     (case stripImage req of
        None \<Rightarrow> (Inr None, fs0, [])
      | Some img \<Rightarrow>
          if img = [] then (Inr None, fs0, [])
          else
            (case processBase64Image e img
                    (or_default (request.backgroundColor req) DEFAULT_BACKGROUND_COLOR) fs0 of
               (Inl err, fs1) \<Rightarrow> (Inl err, fs1, [])
             | (Inr imgs, fs1) \<Rightarrow> (Inr (Some imgs), fs1, [strip imgs, strip2x imgs, strip3x imgs])))"

definition strips_readable :: "strip_paths option \<Rightarrow> fs \<Rightarrow> bool" where
  "strips_readable stripImages fs0 =
     (case stripImages of
        None \<Rightarrow> True
      | Some imgs \<Rightarrow> strip imgs \<in> dom fs0 \<and> strip2x imgs \<in> dom fs0 \<and> strip3x imgs \<in> dom fs0)"

text \<open>
  The body of the \<open>try\<close>: the result, the files after it and \<open>filesToCleanup\<close> as it
  stands when the body ends or throws.
\<close>

definition try_body :: "env \<Rightarrow> request \<Rightarrow> fs \<Rightarrow> (error + jsstring \<times> jsstring) \<times> fs \<times> jsstring list" where
  "try_body e req fs0 =
     (case process_strip e req fs0 of
        (Inl err, fs1, filesToCleanup) \<Rightarrow> (Inl err, fs1, filesToCleanup)
      | (Inr stripImages, fs1, filesToCleanup) \<Rightarrow>
     (case build_pass e req of
        Inl err \<Rightarrow> (Inl err, fs1, filesToCleanup)
      | Inr passJson \<Rightarrow>
          if \<not> icons_ok e then (Inl AssetReadFailed, fs1, filesToCleanup)
          else if \<not> strips_readable stripImages fs1 then (Inl AssetReadFailed, fs1, filesToCleanup)
          else if \<not> PKPass_ok e passJson then (Inl SigningFailed, fs1, filesToCleanup)
          else if \<not> writeFile_ok e then (Inl WriteFailed, fs1, filesToCleanup)
          else
            let passPath = path_join (js ''temp'') (uniqueId e @ js ''.pkpass'');
                fs2 = fs1(passPath \<mapsto> Pkpass passJson (stripImages \<noteq> None))
            in (Inr (downloadUrl e req, uniqueId e), cleanupFiles filesToCleanup fs2,
                filesToCleanup)))"

text \<open>The handler of \<open>POST /generate-pass\<close>: the response and the files after it.\<close>

definition generate_pass :: "env \<Rightarrow> request \<Rightarrow> fs \<Rightarrow> response \<times> fs" where
  "generate_pass e req fs0 =
     (case try_body e req fs0 of
        (Inr (passUrl, passId), fs1, filesToCleanup) \<Rightarrow> (Success passUrl passId, fs1)
      | (Inl err, fs1, filesToCleanup) \<Rightarrow> (Failure err, cleanupFiles filesToCleanup fs1))"

text \<open>The last segment of a path or URL, and that segment without \<open>.pkpass\<close>.\<close>

definition basename :: "jsstring \<Rightarrow> jsstring" where
  "basename p = rev (takeWhile (\<lambda>c. c \<noteq> 47) (rev p))"

definition pkpass_stem :: "jsstring \<Rightarrow> jsstring option" where
  "pkpass_stem p =
     (let f = basename p; n = length f - 7
      in if 7 \<le> length f \<and> drop n f = js ''.pkpass'' then Some (take n f) else None)"

section \<open>Example inputs\<close>

text \<open>
  A template with one field in each slot. An image: the base64 text of a PNG of one red
  pixel. A signing library that checks the colour of the manifest: it accepts the
  hexadecimal colour and the default colour of these examples and refuses any other
  text. A server in UTC on which the image library makes the strips of that image and of
  no other text, and every other outside step succeeds. Requests: one with every field and
  a hexadecimal colour, which does not have the form \<open>rgb(r, g, b)\<close>, one with the
  discount only, one with empty texts, and one with the image.
\<close>

definition tiny_png :: jsstring where
  "tiny_png =
     js ''iVBORw0KGgoAAAANSUhEUgAAAAEAAAABCAIAAACQd1PeAAAADElEQVR42mP4z8AAAAMBAQD3A0FDAAAAAElFTkSuQmCC''"

definition example_signer :: "PassJson \<Rightarrow> bool" where
  "example_signer passJson =
     (PassJson.backgroundColor passJson = js ''#ff0000''
      \<or> PassJson.backgroundColor passJson = DEFAULT_BACKGROUND_COLOR)"

definition example_template :: PassJson where
  "example_template =
     \<lparr>serialNumber = js ''0'',
      barcode = \<lparr>message = js ''placeholder'', format = js ''PKBarcodeFormatQR'',
                 messageEncoding = js ''iso-8859-1'', altText = js ''''\<rparr>,
      barcodes = [],
      backgroundColor = js ''rgb(60, 65, 76)'',
      coupon =
        \<lparr>headerFields =
           [\<lparr>key = js ''expires'', label = Some (js ''EXPIRES''), fvalue = JString (js ''never'')\<rparr>],
         primaryFields =
           [\<lparr>key = js ''offer'', label = None, fvalue = JString (js ''10%'')\<rparr>],
         secondaryFields =
           [\<lparr>key = js ''service'', label = Some (js ''SERVICE''), fvalue = JString (js ''Any'')\<rparr>]\<rparr>\<rparr>"

definition example_env :: env where
  "example_env =
     \<lparr>now = 1700000000000, template = Some example_template,
      sharp_ok = (\<lambda>img path. img = tiny_png), icons_ok = True,
      PKPass_ok = example_signer, writeFile_ok = True,
      tz = (\<lambda>t isUTC. 0), other_date_formats = (\<lambda>s. None)\<rparr>"

definition example_request :: request where
  "example_request =
     \<lparr>expiryDate = Some (js ''2025-01-10''), serviceType = Some (js ''Gold''),
      discount = Some (js ''20''), backgroundColor = Some (js ''#ff0000''),
      stripImage = None, protocol = js ''https'', host = js ''example.com''\<rparr>"

definition example_barcode :: barcode where
  "example_barcode =
     \<lparr>message = js ''https://example.com/passes/1700000000000.pkpass'',
      format = js ''PKBarcodeFormatQR'', messageEncoding = js ''iso-8859-1'',
      altText = js ''QR code''\<rparr>"

definition example_manifest :: PassJson where
  "example_manifest =
     \<lparr>serialNumber = js ''1700000000000'',
      barcode = example_barcode,
      barcodes = [example_barcode],
      backgroundColor = js ''#ff0000'',
      coupon =
        \<lparr>headerFields =
           [\<lparr>key = js ''expires'', label = Some (js ''EXPIRES''),
             fvalue = JDate (Some 1736553600000)\<rparr>],
         primaryFields =
           [\<lparr>key = js ''offer'', label = None, fvalue = JString (js ''20'')\<rparr>],
         secondaryFields =
           [\<lparr>key = js ''service'', label = Some (js ''SERVICE''), fvalue = JString (js ''Gold'')\<rparr>]\<rparr>\<rparr>"

definition minimal_request :: request where
  "minimal_request =
     \<lparr>expiryDate = None, serviceType = None, discount = Some (js ''15''),
      backgroundColor = None, stripImage = None,
      protocol = js ''https'', host = js ''example.com''\<rparr>"

definition minimal_manifest :: PassJson where
  "minimal_manifest =
     \<lparr>serialNumber = js ''1700000000000'',
      barcode = example_barcode,
      barcodes = [example_barcode],
      backgroundColor = js ''rgb(41, 128, 185)'',
      coupon =
        \<lparr>headerFields =
           [\<lparr>key = js ''expires'', label = Some (js ''EXPIRES''), fvalue = JString (js ''never'')\<rparr>],
         primaryFields =
           [\<lparr>key = js ''offer'', label = None, fvalue = JString (js ''15'')\<rparr>],
         secondaryFields =
           [\<lparr>key = js ''service'', label = Some (js ''SERVICE''), fvalue = JString (js ''Any'')\<rparr>]\<rparr>\<rparr>"

definition empty_texts_request :: request where
  "empty_texts_request = minimal_request\<lparr>expiryDate := Some [], serviceType := Some []\<rparr>"

definition image_request :: request where
  "image_request = minimal_request\<lparr>stripImage := Some tiny_png\<rparr>"

text \<open>
  The same server when \<open>/tmp/strip@2x.png\<close> cannot be written (a directory has this
  name): the image library makes the first strip of the image and fails on the second.
\<close>

definition strip2x_fails_env :: env where
  "strip2x_fails_env =
     example_env\<lparr>sharp_ok := (\<lambda>img path. img = tiny_png \<and> path \<noteq> js ''/tmp/strip@2x.png'')\<rparr>"

text \<open>
  A server in New York in 2025: local time is five hours behind UTC, and four hours from
  9 March to 2 November; a local time that the change skips or repeats takes the offset
  before the change. A request on it whose expiry date is the day of the change.
\<close>

definition new_york_tz :: LocalTZA where
  "new_york_tz t isUTC =
     (if isUTC
      then (if 1741503600000 \<le> t \<and> t < 1762063200000 then - 14400000 else - 18000000)
      else (if 1741489200000 \<le> t \<and> t < 1762048800000 then - 14400000 else - 18000000))"

definition new_york_env :: env where
  "new_york_env = example_env\<lparr>tz := new_york_tz\<rparr>"

definition march_request :: request where
  "march_request = minimal_request\<lparr>expiryDate := Some (js ''2025-03-09'')\<rparr>"


definition march_manifest :: PassJson where
  "march_manifest =
     \<lparr>serialNumber = js ''1700000000000'',
      barcode = example_barcode,
      barcodes = [example_barcode],
      backgroundColor = js ''rgb(41, 128, 185)'',
      coupon =
        \<lparr>headerFields =
           [\<lparr>key = js ''expires'', label = Some (js ''EXPIRES''),
             fvalue = JDate (Some 1741561200000)\<rparr>],
         primaryFields =
           [\<lparr>key = js ''offer'', label = None, fvalue = JString (js ''15'')\<rparr>],
         secondaryFields =
           [\<lparr>key = js ''service'', label = Some (js ''SERVICE''), fvalue = JString (js ''Any'')\<rparr>]\<rparr>\<rparr>"

section \<open>Properties of the model\<close>

subsection \<open>The matcher computes the pattern\<close>

lemmas matcher_defs = js_def rgb_at_def expect_def digits1_def is_digit_def is_space_def

lemma rgb_match_DEFAULT:
  "rgb_match DEFAULT_BACKGROUND_COLOR = Some (js ''41'', js ''128'', js ''185'')"
  by (simp add: DEFAULT_BACKGROUND_COLOR_def matcher_defs)

lemma expect_Some: "expect lit s = Some rest \<longleftrightarrow> s = lit @ rest"
  by (auto simp: expect_def) (metis append_take_drop_id)

lemma digit_not_space: "is_digit c \<Longrightarrow> \<not> is_space c"
  by (auto simp: is_digit_def is_space_def)

lemma digits1_Some:
  "digits1 s = Some (d, rest) \<longleftrightarrow>
     digits d \<and> s = d @ rest \<and> (rest = [] \<or> \<not> is_digit (hd rest))"
proof
  assume "digits1 s = Some (d, rest)"
  then have d: "d = takeWhile is_digit s" "rest = dropWhile is_digit s" "d \<noteq> []"
    by (auto simp: digits1_def Let_def split: if_splits)
  have "\<forall>c \<in> set d. is_digit c"
    unfolding d by (auto dest: set_takeWhileD)
  moreover have "s = d @ rest"
    unfolding d by simp
  moreover have "rest = [] \<or> \<not> is_digit (hd rest)"
    unfolding d using hd_dropWhile [of is_digit s] by blast
  ultimately show "digits d \<and> s = d @ rest \<and> (rest = [] \<or> \<not> is_digit (hd rest))"
    using d(3) by (simp add: digits_def)
next
  assume a: "digits d \<and> s = d @ rest \<and> (rest = [] \<or> \<not> is_digit (hd rest))"
  then have all: "\<forall>c \<in> set d. is_digit c" and ne: "d \<noteq> []" and s: "s = d @ rest"
    by (auto simp: digits_def)
  from a have "takeWhile is_digit rest = []"
    by (cases rest) auto
  with all have "takeWhile is_digit s = d"
    unfolding s by (simp add: takeWhile_append2)
  moreover from a have "dropWhile is_digit rest = rest"
    by (cases rest) auto
  with all have "dropWhile is_digit s = rest"
    unfolding s by (simp add: dropWhile_append2)
  ultimately show "digits1 s = Some (d, rest)"
    using ne by (simp add: digits1_def)
qed

lemma skip_spaces:
  "spaces w \<Longrightarrow> digits d \<Longrightarrow> dropWhile is_space (w @ d @ rest) = d @ rest"
  by (cases d) (auto simp: spaces_def digits_def dropWhile_append2 digit_not_space)

lemma spaces_takeWhile: "spaces (takeWhile is_space s)"
  by (auto simp: spaces_def dest: set_takeWhileD)

lemma digits1_form:
  "digits d \<Longrightarrow> c \<notin> {48..57} \<Longrightarrow> digits1 (d @ c # rest) = Some (d, c # rest)"
  by (simp add: digits1_Some is_digit_def)

lemma rgb_at_form:
  assumes "digits d1" "digits d2" "digits d3" "spaces w1" "spaces w2"
  shows "rgb_at (rgb_form d1 w1 d2 w2 d3 @ post) = Some (d1, d2, d3)"
proof -
  have 1: "expect (js ''rgb('') (rgb_form d1 w1 d2 w2 d3 @ post)
      = Some (d1 @ 44 # w1 @ d2 @ 44 # w2 @ d3 @ 41 # post)"
    by (simp add: expect_Some rgb_form_def js_def)
  have 2: "digits1 (d1 @ 44 # w1 @ d2 @ 44 # w2 @ d3 @ 41 # post)
      = Some (d1, 44 # w1 @ d2 @ 44 # w2 @ d3 @ 41 # post)"
    using assms(1) by (simp add: digits1_form)
  have 3: "dropWhile is_space (w1 @ d2 @ 44 # w2 @ d3 @ 41 # post)
      = d2 @ 44 # w2 @ d3 @ 41 # post"
    using assms by (simp add: skip_spaces)
  have 4: "digits1 (d2 @ 44 # w2 @ d3 @ 41 # post) = Some (d2, 44 # w2 @ d3 @ 41 # post)"
    using assms(2) by (simp add: digits1_form)
  have 5: "dropWhile is_space (w2 @ d3 @ 41 # post) = d3 @ 41 # post"
    using assms by (simp add: skip_spaces)
  have 6: "digits1 (d3 @ 41 # post) = Some (d3, 41 # post)"
    using assms(3) by (simp add: digits1_form)
  have lit: "expect (js '','') (44 # xs) = Some xs" "expect (js '')'') (41 # xs) = Some xs" for xs
    by (simp_all add: expect_def js_def)
  show ?thesis
    unfolding rgb_at_def by (simp add: 1 2 3 4 5 6 lit)
qed

lemma rgb_at_Some:
  assumes "rgb_at s = Some (d1, d2, d3)"
  shows "digits d1 \<and> digits d2 \<and> digits d3 \<and>
         (\<exists>w1 w2 post. spaces w1 \<and> spaces w2 \<and> s = rgb_form d1 w1 d2 w2 d3 @ post)"
proof -
  from assms obtain s1 s2 s3 s4 s5 s6 s7 where
    e1: "expect (js ''rgb('') s = Some s1" and
    g1: "digits1 s1 = Some (d1, s2)" and
    e2: "expect (js '','') s2 = Some s3" and
    g2: "digits1 (dropWhile is_space s3) = Some (d2, s4)" and
    e3: "expect (js '','') s4 = Some s5" and
    g3: "digits1 (dropWhile is_space s5) = Some (d3, s6)" and
    e4: "expect (js '')'') s6 = Some s7"
    by (auto simp: rgb_at_def split: option.splits)
  from e1 have a1: "s = js ''rgb('' @ s1" by (simp add: expect_Some)
  from g1 have a2: "s1 = d1 @ s2" by (simp add: digits1_Some)
  from e2 have a3: "s2 = js '','' @ s3" by (simp add: expect_Some)
  from g2 have a4: "dropWhile is_space s3 = d2 @ s4" by (simp add: digits1_Some)
  from e3 have a5: "s4 = js '','' @ s5" by (simp add: expect_Some)
  from g3 have a6: "dropWhile is_space s5 = d3 @ s6" by (simp add: digits1_Some)
  from e4 have a7: "s6 = js '')'' @ s7" by (simp add: expect_Some)
  have "s5 = takeWhile is_space s5 @ dropWhile is_space s5"
    by simp
  then have b5: "s5 = takeWhile is_space s5 @ d3 @ js '')'' @ s7"
    unfolding a6 a7 .
  have "s3 = takeWhile is_space s3 @ dropWhile is_space s3"
    by simp
  then have b3: "s3 = takeWhile is_space s3 @ d2 @ js '','' @ s5"
    unfolding a4 a5 .
  have "s = js ''rgb('' @ d1 @ js '','' @ s3"
    unfolding a1 a2 a3 ..
  also have "\<dots> = js ''rgb('' @ d1 @ js '','' @ takeWhile is_space s3 @ d2 @ js '','' @ s5"
    using b3 by simp
  also have "\<dots> = js ''rgb('' @ d1 @ js '','' @ takeWhile is_space s3 @ d2 @ js '',''
          @ takeWhile is_space s5 @ d3 @ js '')'' @ s7"
    using b5 by simp
  finally have "s = js ''rgb('' @ d1 @ js '','' @ takeWhile is_space s3 @ d2 @ js '',''
          @ takeWhile is_space s5 @ d3 @ js '')'' @ s7" .
  then have "s = rgb_form d1 (takeWhile is_space s3) d2 (takeWhile is_space s5) d3 @ s7"
    by (simp add: rgb_form_def)
  then show ?thesis
    using g1 g2 g3 spaces_takeWhile by (auto simp: digits1_Some)
qed

lemma rgb_at_Nil: "rgb_at [] = None"
  by (simp add: matcher_defs)

lemma rgb_match_at: "rgb_at s = Some m \<Longrightarrow> rgb_match s = Some m"
  by (cases s) (simp_all add: rgb_at_Nil)

lemma rgb_match_append: "rgb_at s = Some m \<Longrightarrow> rgb_match (pre @ s) \<noteq> None"
  by (induction pre) (auto simp: rgb_match_at split: option.splits)

lemma rgb_match_leftmost:
  "\<forall>k < length pre. rgb_at (drop k (pre @ s)) = None \<Longrightarrow> rgb_match (pre @ s) = rgb_match s"
proof (induction pre)
  case Nil
  then show ?case by simp
next
  case (Cons c pre)
  from Cons.prems have "rgb_at (drop 0 ((c # pre) @ s)) = None"
    by blast
  then have here: "rgb_at (c # pre @ s) = None"
    by simp
  have "\<forall>k < length pre. rgb_at (drop k (pre @ s)) = None"
  proof (intro allI impI)
    fix k assume "k < length pre"
    then have "Suc k < length (c # pre)" by simp
    with Cons.prems have "rgb_at (drop (Suc k) ((c # pre) @ s)) = None" by blast
    then show "rgb_at (drop k (pre @ s)) = None" by simp
  qed
  with Cons.IH here show ?case by simp
qed

lemma rgb_match_Some:
  "rgb_match s = Some m \<Longrightarrow> \<exists>pre rest. s = pre @ rest \<and> rgb_at rest = Some m"
proof (induction s)
  case Nil
  then show ?case by (simp add: rgb_at_Nil)
next
  case (Cons c cs)
  show ?case
  proof (cases "rgb_at (c # cs)")
    case None
    with Cons.prems have "rgb_match cs = Some m" by simp
    with Cons.IH obtain pre rest where "cs = pre @ rest" "rgb_at rest = Some m" by blast
    then have "c # cs = (c # pre) @ rest \<and> rgb_at rest = Some m" by simp
    then show ?thesis by blast
  next
    case (Some m')
    with Cons.prems have "c # cs = [] @ (c # cs) \<and> rgb_at (c # cs) = Some m" by simp
    then show ?thesis by blast
  qed
qed

lemma rgb_match_None_iff: "rgb_match s = None \<longleftrightarrow> \<not> contains_rgb s"
proof
  assume none: "rgb_match s = None"
  show "\<not> contains_rgb s"
  proof
    assume "contains_rgb s"
    then obtain pre d1 w1 d2 w2 d3 post where
      "digits d1" "digits d2" "digits d3" "spaces w1" "spaces w2"
      and s: "s = pre @ rgb_form d1 w1 d2 w2 d3 @ post"
      unfolding contains_rgb_def by blast
    then have "rgb_at (rgb_form d1 w1 d2 w2 d3 @ post) = Some (d1, d2, d3)"
      by (simp add: rgb_at_form)
    then have "rgb_match s \<noteq> None"
      unfolding s by (rule rgb_match_append)
    with none show False by simp
  qed
next
  assume no: "\<not> contains_rgb s"
  show "rgb_match s = None"
  proof (rule ccontr)
    assume "rgb_match s \<noteq> None"
    then obtain d1 d2 d3 where "rgb_match s = Some (d1, d2, d3)"
      by (cases "rgb_match s") auto
    then obtain pre rest where s: "s = pre @ rest" and "rgb_at rest = Some (d1, d2, d3)"
      using rgb_match_Some by blast
    then obtain w1 w2 post where "digits d1" "digits d2" "digits d3" "spaces w1" "spaces w2"
      "rest = rgb_form d1 w1 d2 w2 d3 @ post"
      using rgb_at_Some by blast
    then have "contains_rgb s"
      unfolding contains_rgb_def s by blast
    with no show False by simp
  qed
qed

subsection \<open>First occurrences\<close>

lemma rgb_form_no_r_inside: "114 \<notin> set (tl (rgb_form d1 w1 d2 w2 d3))"
  if "digits d1" "digits d2" "digits d3" "spaces w1" "spaces w2"
  using that by (auto simp: rgb_form_def js_def digits_def spaces_def is_digit_def is_space_def)

lemma rgb_form_starts: "rgb_form d1 w1 d2 w2 d3 = 114 # tl (rgb_form d1 w1 d2 w2 d3)"
  by (simp add: rgb_form_def js_def)

lemma no_overlap:
  assumes "u @ 114 # v = R @ q" "u \<noteq> []" "114 \<notin> set (tl R)" "R \<noteq> []"
  shows "\<exists>rest. u = R @ rest"
proof (rule ccontr)
  assume no: "\<not> (\<exists>rest. u = R @ rest)"
  from assms(1) have "length R > length u"
    using no by (metis append_eq_append_conv_if append_take_drop_id linorder_not_less)
  with assms(1) have "R ! length u = 114"
    by (metis nth_append nth_append_length)
  moreover from \<open>length R > length u\<close> assms(2) have "R ! length u \<in> set (tl R)"
    by (cases R; cases u) auto
  ultimately show False using assms(3) by simp
qed

lemma first_occurrence:
  assumes "\<not> contains_rgb pre"
  shows "\<forall>k < length pre. rgb_at (drop k (pre @ rgb_form d1 w1 d2 w2 d3 @ post)) = None"
proof (intro allI impI, rule ccontr)
  fix k
  assume k: "k < length pre"
  assume "rgb_at (drop k (pre @ rgb_form d1 w1 d2 w2 d3 @ post)) \<noteq> None"
  then obtain e1 e2 e3 where "rgb_at (drop k (pre @ rgb_form d1 w1 d2 w2 d3 @ post)) = Some (e1, e2, e3)"
    by (cases "rgb_at (drop k (pre @ rgb_form d1 w1 d2 w2 d3 @ post))") auto
  then obtain v1 v2 q where dg: "digits e1" "digits e2" "digits e3" "spaces v1" "spaces v2"
    and eq: "drop k (pre @ rgb_form d1 w1 d2 w2 d3 @ post) = rgb_form e1 v1 e2 v2 e3 @ q"
    using rgb_at_Some by blast
  let ?R = "rgb_form e1 v1 e2 v2 e3"
  have "drop k pre @ rgb_form d1 w1 d2 w2 d3 @ post = ?R @ q"
    using eq k by simp
  then have "drop k pre @ (114 # tl (rgb_form d1 w1 d2 w2 d3)) @ post = ?R @ q"
    by (simp only: rgb_form_starts [symmetric])
  then have "drop k pre @ 114 # (tl (rgb_form d1 w1 d2 w2 d3) @ post) = ?R @ q"
    by simp
  moreover have "drop k pre \<noteq> []" using k by simp
  moreover have "114 \<notin> set (tl ?R)" using dg by (rule rgb_form_no_r_inside)
  moreover have "?R \<noteq> []" by (simp add: rgb_form_def js_def)
  ultimately obtain rest where "drop k pre = ?R @ rest"
    using no_overlap by blast
  then have "pre = take k pre @ ?R @ rest"
    by (metis append_take_drop_id)
  with dg have "contains_rgb pre"
    unfolding contains_rgb_def by blast
  with assms show False by simp
qed

lemma parseInt_DEFAULT:
  "parseInt (js ''41'') = 41" "parseInt (js ''128'') = 128" "parseInt (js ''185'') = 185"
  by (simp_all add: parseInt_def js_def)

lemma parseRGBColor_no_match:
  "rgb_match s = None \<Longrightarrow> parseRGBColor s = \<lparr>r = 41, g = 128, b = 185\<rparr>"
  by (simp add: parseRGBColor.simps [of s] parseRGBColor.simps [of DEFAULT_BACKGROUND_COLOR]
      rgb_match_DEFAULT parseInt_DEFAULT)

lemma parseRGBColor_first_match:
  assumes "digits d1" "digits d2" "digits d3" "spaces w1" "spaces w2"
    and "\<not> contains_rgb pre"
  shows "parseRGBColor (pre @ rgb_form d1 w1 d2 w2 d3 @ post)
           = \<lparr>r = parseInt d1, g = parseInt d2, b = parseInt d3\<rparr>"
proof -
  have "rgb_match (pre @ rgb_form d1 w1 d2 w2 d3 @ post)
          = rgb_match (rgb_form d1 w1 d2 w2 d3 @ post)"
    using first_occurrence [OF assms(6)] by (rule rgb_match_leftmost)
  also have "\<dots> = Some (d1, d2, d3)"
    using assms by (simp add: rgb_match_at rgb_at_form)
  finally show ?thesis
    by (simp add: parseRGBColor.simps [of "pre @ rgb_form d1 w1 d2 w2 d3 @ post"])
qed

lemma or_default_Some: "s \<noteq> [] \<Longrightarrow> or_default (Some s) d = s"
  by (simp add: or_default_def)

lemma contains_rgb_not_Nil: "contains_rgb s \<Longrightarrow> s \<noteq> []"
  by (auto simp: contains_rgb_def rgb_form_def js_def)

lemma not_a_color: "rgb_match (js ''not-a-color'') = None"
  by (simp add: matcher_defs)

subsection \<open>Dates\<close>

lemma MonthFromTime_range: "0 \<le> MonthFromTime t \<and> MonthFromTime t \<le> 11"
  unfolding MonthFromTime_def Let_def by (simp only: split: if_split) simp

lemma MakeDay_DateFromTime:
  "MakeDay (YearFromTime t) (MonthFromTime t) (DateFromTime t + k) = Day t + k"
proof -
  have m: "MonthFromTime t div 12 = 0" "MonthFromTime t mod 12 = MonthFromTime t"
    using MonthFromTime_range [of t] by simp_all
  show ?thesis
    by (simp add: MakeDay_def m DateFromTime_def DayWithinYear_def InLeapYear_def)
qed

lemma Day_TimeWithinDay: "MakeDate (Day t + k) (TimeWithinDay t) = t + k * msPerDay"
  by (simp add: MakeDate_def Day_def TimeWithinDay_def algebra_simps)

text \<open>\<open>setDate(getDate() + 1)\<close> is one day later in local time, at the same time of day.\<close>

lemma setDate_getDate_next:
  "setDate z (Some t) (map_option (\<lambda>n. n + 1) (getDate z (Some t)))
     = TimeClip (UTC z (LocalTime z t + msPerDay))"
  using Day_TimeWithinDay [of "LocalTime z t" 1]
  by (simp add: setDate_def getDate_def MakeDay_DateFromTime)

lemma expirationDate_eq:
  "expirationDate e s =
     (case new_Date (other_date_formats e) s of
        None \<Rightarrow> None
      | Some t \<Rightarrow> TimeClip (UTC (tz e) (LocalTime (tz e) t + msPerDay)))"
  by (cases "new_Date (other_date_formats e) s")
     (simp_all add: expirationDate_def setDate_getDate_next, simp add: setDate_def getDate_def)

text \<open>The year of a day: the search of \<open>YearFromTime\<close> finds the year of the standard.\<close>

lemma div_succ:
  fixes a k :: int
  assumes "0 < k"
  shows "(a + 1) div k = a div k + (if (a + 1) mod k = 0 then 1 else 0)"
proof -
  let ?q = "a div k" and ?r = "a mod k"
  have r: "0 \<le> ?r" "?r < k" using assms by simp_all
  have a: "a + 1 = (?r + 1) + k * ?q" by simp
  show ?thesis
  proof (cases "?r + 1 < k")
    case True
    then have "(?r + 1) div k = 0" "(?r + 1) mod k = ?r + 1"
      using r by simp_all
    then have "(a + 1) div k = ?q" "(a + 1) mod k = ?r + 1"
      using assms by (simp_all only: a div_mult_self2 mod_mult_self2)
    with r show ?thesis by simp
  next
    case False
    with r have e: "?r + 1 = k" by simp
    have "a + 1 = k * ?q + (?r + 1)" by simp
    also have "\<dots> = k * ?q + k" using e by simp
    also have "\<dots> = k * (?q + 1)" by (simp add: algebra_simps)
    finally have "a + 1 = k * (?q + 1)" .
    then have "(a + 1) div k = ?q + 1" "(a + 1) mod k = 0"
      using assms by simp_all
    then show ?thesis by simp
  qed
qed

lemma DayFromYear_step: "DayFromYear (y + 1) = DayFromYear y + DaysInYear y"
proof -
  have m4: "(y - 1968) mod 4 = y mod 4"
    using mod_diff_eq [of y 4 1968] by simp
  have m100: "(y - 1900) mod 100 = y mod 100"
    using mod_diff_eq [of y 100 1900] by simp
  have m400: "(y - 1600) mod 400 = y mod 400"
    using mod_diff_eq [of y 400 1600] by simp
  have h4: "(y - 1968) div 4 = (y - 1969) div 4 + (if y mod 4 = 0 then 1 else 0)"
    using div_succ [of 4 "y - 1969"] m4 by simp
  have h100: "(y - 1900) div 100 = (y - 1901) div 100 + (if y mod 100 = 0 then 1 else 0)"
    using div_succ [of 100 "y - 1901"] m100 by simp
  have h400: "(y - 1600) div 400 = (y - 1601) div 400 + (if y mod 400 = 0 then 1 else 0)"
    using div_succ [of 400 "y - 1601"] m400 by simp
  have i1: "y mod 4 = 0" if "y mod 100 = 0"
  proof -
    from that have "100 dvd y" by (simp add: dvd_eq_mod_eq_0)
    then have "4 dvd y" using dvd_trans [of 4 100 y] by simp
    then show ?thesis by (simp add: dvd_eq_mod_eq_0)
  qed
  have i2: "y mod 100 = 0" if "y mod 400 = 0"
  proof -
    from that have "400 dvd y" by (simp add: dvd_eq_mod_eq_0)
    then have "100 dvd y" using dvd_trans [of 100 400 y] by simp
    then show ?thesis by (simp add: dvd_eq_mod_eq_0)
  qed
  define A B C where "A = (y - 1969) div 4" and "B = (y - 1901) div 100"
    and "C = (y - 1601) div 400"
  have "DayFromYear (y + 1)
      = 365 * (y - 1969) + (y - 1968) div 4 - (y - 1900) div 100 + (y - 1600) div 400"
    by (simp add: DayFromYear_def)
  also have "\<dots> = 365 * (y - 1969) + (A + (if y mod 4 = 0 then 1 else 0))
      - (B + (if y mod 100 = 0 then 1 else 0)) + (C + (if y mod 400 = 0 then 1 else 0))"
    unfolding h4 h100 h400 A_def B_def C_def by (rule refl)
  also have "\<dots> = (365 * (y - 1970) + A - B + C) + DaysInYear y"
    using i1 i2 by (simp add: DaysInYear_def)
  finally show ?thesis
    unfolding DayFromYear_def A_def B_def C_def .
qed

lemma DaysInYear_range: "365 \<le> DaysInYear y \<and> DaysInYear y \<le> 366"
  by (simp add: DaysInYear_def)

lemma DayFromYear_1970: "DayFromYear 1970 = 0"
  by (simp add: DayFromYear_def)

lemma DayFromYear_after:
  "1970 \<le> y \<Longrightarrow> 365 * (y - 1970) \<le> DayFromYear y \<and> DayFromYear y \<le> 366 * (y - 1970)"
proof (induction y rule: int_ge_induct)
  case base
  show ?case by (simp add: DayFromYear_1970)
next
  case (step i)
  with DaysInYear_range [of i] show ?case
    by (simp add: DayFromYear_step)
qed

lemma DayFromYear_before:
  "y \<le> 1970 \<Longrightarrow> 366 * (y - 1970) \<le> DayFromYear y \<and> DayFromYear y \<le> 365 * (y - 1970)"
proof (induction y rule: int_le_induct)
  case base
  show ?case by (simp add: DayFromYear_1970)
next
  case (step i)
  have "DayFromYear i = DayFromYear (i - 1) + DaysInYear (i - 1)"
    using DayFromYear_step [of "i - 1"] by simp
  with step DaysInYear_range [of "i - 1"] show ?case
    by simp
qed

lemma DayFromYear_between:
  "min (365 * (y - 1970)) (366 * (y - 1970)) \<le> DayFromYear y
   \<and> DayFromYear y \<le> max (365 * (y - 1970)) (366 * (y - 1970))"
  using DayFromYear_after [of y] DayFromYear_before [of y]
  by (cases "1970 \<le> y") auto

lemma DayFromYear_mono: "y \<le> z \<Longrightarrow> DayFromYear y \<le> DayFromYear z"
proof (induction z rule: int_ge_induct)
  case base
  show ?case by simp
next
  case (step i)
  with DaysInYear_range [of i] show ?case
    by (simp add: DayFromYear_step)
qed

lemma year_search_correct:
  "lo < y \<Longrightarrow> DayFromYear (lo + 1) \<le> d \<Longrightarrow> d < DayFromYear (y + 1) \<Longrightarrow>
     DayFromYear (year_search d lo y) \<le> d \<and> d < DayFromYear (year_search d lo y + 1)"
proof (induction d lo y rule: year_search.induct)
  case (1 d lo y)
  show ?case
  proof (cases "DayFromYear y \<le> d")
    case True
    with "1.prems" show ?thesis
      by (simp add: year_search.simps [of d lo y])
  next
    case False
    with "1.prems" have "y \<noteq> lo + 1" by auto
    with "1.prems" have lo: "lo < y - 1" by simp
    from False have "d < DayFromYear (y - 1 + 1)" by simp
    with "1.IH" "1.prems" False lo
    have "DayFromYear (year_search d lo (y - 1)) \<le> d
        \<and> d < DayFromYear (year_search d lo (y - 1) + 1)"
      by simp
    with "1.prems" False show ?thesis
      by (simp add: year_search.simps [of d lo y])
  qed
qed

text \<open>\<open>YearFromTime t\<close> is the year of the standard: the last one that starts by day \<open>Day t\<close>.\<close>

lemma YearFromTime_bounds:
  "DayFromYear (YearFromTime t) \<le> Day t \<and> Day t < DayFromYear (YearFromTime t + 1)"
proof -
  define d where "d = Day t"
  define A B where "A = d div 365" and "B = d div 366"
  have A: "365 * A \<le> d" "d < 365 * A + 365" and B: "366 * B \<le> d" "d < 366 * B + 366"
    unfolding A_def B_def by simp_all
  have order: "1969 + min A B < 1970 + max A B"
    by simp
  have low: "DayFromYear (1969 + min A B + 1) \<le> d"
    using DayFromYear_between [of "1970 + min A B"] A B by (simp add: algebra_simps) linarith
  have high: "d < DayFromYear (1970 + max A B + 1)"
    using DayFromYear_between [of "1971 + max A B"] A B by (simp add: algebra_simps) linarith
  from year_search_correct [OF order low high] show ?thesis
    unfolding YearFromTime_def Let_def d_def A_def B_def .
qed

lemma YearFromTime_largest: "DayFromYear y \<le> Day t \<Longrightarrow> y \<le> YearFromTime t"
proof (rule ccontr)
  assume a: "DayFromYear y \<le> Day t" and "\<not> y \<le> YearFromTime t"
  then have "YearFromTime t + 1 \<le> y" by simp
  then have "DayFromYear (YearFromTime t + 1) \<le> DayFromYear y"
    by (rule DayFromYear_mono)
  with a YearFromTime_bounds [of t] show False by simp
qed

text \<open>Calendar dates: the day after, and the date of a text that is a date.\<close>

lemma month_start_simps:
  "month_start l 0 = 0" "month_start l 1 = 31"
  "month_start l 2 = 59 + (if l then 1 else 0)" "month_start l 3 = 90 + (if l then 1 else 0)"
  "month_start l 4 = 120 + (if l then 1 else 0)" "month_start l 5 = 151 + (if l then 1 else 0)"
  "month_start l 6 = 181 + (if l then 1 else 0)" "month_start l 7 = 212 + (if l then 1 else 0)"
  "month_start l 8 = 243 + (if l then 1 else 0)" "month_start l 9 = 273 + (if l then 1 else 0)"
  "month_start l 10 = 304 + (if l then 1 else 0)" "month_start l 11 = 334 + (if l then 1 else 0)"
  "month_start l 12 = 365 + (if l then 1 else 0)"
  by (simp_all add: month_start_def)

lemma month_cases:
  fixes M :: int
  assumes "0 \<le> M" "M \<le> 11"
  shows "M = 0 \<or> M = 1 \<or> M = 2 \<or> M = 3 \<or> M = 4 \<or> M = 5 \<or> M = 6 \<or> M = 7 \<or> M = 8
         \<or> M = 9 \<or> M = 10 \<or> M = 11"
  using assms by presburger

lemma MonthFromTime_month_of: "MonthFromTime t = month_of (InLeapYear t) (DayWithinYear t)"
  by (simp add: MonthFromTime_def month_of_def Let_def)

lemma month_of_eq:
  assumes "0 \<le> M" "M \<le> 11" "month_start l M \<le> d" "d < month_start l (M + 1)"
  shows "month_of l d = M"
  using month_cases [OF assms(1,2)] assms(3,4)
  by (elim disjE) (simp_all add: month_of_def month_start_simps split: if_splits)

lemma month_of_bounds:
  assumes "0 \<le> d" "d < month_start l 12"
  shows "0 \<le> month_of l d \<and> month_of l d \<le> 11
         \<and> month_start l (month_of l d) \<le> d \<and> d < month_start l (month_of l d + 1)"
  using assms by (simp add: month_of_def month_start_simps split: if_splits)


lemma Day_next: "Day (t + msPerDay) = Day t + 1"
  by (simp add: Day_def msPerDay_def)

lemma TimeWithinDay_next: "TimeWithinDay (t + msPerDay) = TimeWithinDay t"
  by (simp add: TimeWithinDay_def msPerDay_def)

lemma YearFromTime_unique:
  assumes "DayFromYear y \<le> Day t" "Day t < DayFromYear (y + 1)"
  shows "YearFromTime t = y"
proof (rule antisym)
  show "y \<le> YearFromTime t"
    using assms(1) by (rule YearFromTime_largest)
  show "YearFromTime t \<le> y"
  proof (rule ccontr)
    assume "\<not> YearFromTime t \<le> y"
    then have "y + 1 \<le> YearFromTime t" by simp
    then have "DayFromYear (y + 1) \<le> DayFromYear (YearFromTime t)"
      by (rule DayFromYear_mono)
    with assms(2) YearFromTime_bounds [of t] show False by simp
  qed
qed

lemma DayWithinYear_range:
  "0 \<le> DayWithinYear t \<and> DayWithinYear t < DaysInYear (YearFromTime t)"
  using YearFromTime_bounds [of t] DayFromYear_step [of "YearFromTime t"]
  by (simp add: DayWithinYear_def)

lemma month_start_12: "month_start (DaysInYear y = 366) 12 = DaysInYear y"
  by (simp add: month_start_simps DaysInYear_def)

lemma MonthFromTime_bounds:
  "month_start (InLeapYear t) (MonthFromTime t) \<le> DayWithinYear t
   \<and> DayWithinYear t < month_start (InLeapYear t) (MonthFromTime t + 1)"
proof -
  have "DayWithinYear t < month_start (InLeapYear t) 12"
    using DayWithinYear_range [of t] by (simp add: InLeapYear_def month_start_12)
  with DayWithinYear_range [of t] show ?thesis
    using month_of_bounds [of "DayWithinYear t" "InLeapYear t"]
    by (simp add: MonthFromTime_month_of)
qed

text \<open>The calendar date of a day whose year and day within the year are known.\<close>

lemma civil_date_eq:
  assumes "Day t = DayFromYear y + month_start (DaysInYear y = 366) M + d - 1"
    and "0 \<le> M" "M \<le> 11" "1 \<le> d"
    and "d \<le> month_start (DaysInYear y = 366) (M + 1) - month_start (DaysInYear y = 366) M"
  shows "civil_date t = (y, M + 1, d)"
proof -
  let ?l = "DaysInYear y = 366"
  have mono: "0 \<le> month_start ?l M" "month_start ?l (M + 1) \<le> month_start ?l 12"
    using month_cases [OF assms(2,3)]
    by (elim disjE; simp add: month_start_simps)+
  have lo: "DayFromYear y \<le> Day t"
    using assms(1,4) mono by simp
  have hi: "Day t < DayFromYear (y + 1)"
    using assms(1,5) mono by (simp add: DayFromYear_step month_start_12)
  have y: "YearFromTime t = y"
    using lo hi by (rule YearFromTime_unique)
  then have l: "InLeapYear t = ?l"
    by (simp add: InLeapYear_def)
  have dw: "DayWithinYear t = month_start ?l M + d - 1"
    using assms(1) y by (simp add: DayWithinYear_def)
  have M: "MonthFromTime t = M"
    unfolding MonthFromTime_month_of l dw
    using assms(2-5) by (intro month_of_eq) simp_all
  show ?thesis
    by (simp add: civil_date_def y M DateFromTime_def l dw)
qed

lemma civil_date_next: "civil_date (t + msPerDay) = next_day (civil_date t)"
proof -
  let ?y = "YearFromTime t" and ?M = "MonthFromTime t" and ?d = "DateFromTime t"
  let ?l = "DaysInYear ?y = 366"
  have l: "InLeapYear t = ?l" by (simp add: InLeapYear_def)
  have M: "0 \<le> ?M" "?M \<le> 11"
    using MonthFromTime_range [of t] by simp_all
  have b: "month_start ?l ?M \<le> DayWithinYear t" "DayWithinYear t < month_start ?l (?M + 1)"
    using MonthFromTime_bounds [of t] by (simp_all add: l)
  have d: "?d = DayWithinYear t - month_start ?l ?M + 1"
    by (simp add: DateFromTime_def l)
  have day: "Day (t + msPerDay) = DayFromYear ?y + DayWithinYear t + 1"
    by (simp add: Day_next DayWithinYear_def)
  have dim: "days_in_month ?y (?M + 1) = month_start ?l (?M + 1) - month_start ?l ?M"
    by (simp add: days_in_month_def)
  show ?thesis
  proof (cases "?d < days_in_month ?y (?M + 1)")
    case True
    have "civil_date (t + msPerDay) = (?y, ?M + 1, ?d + 1)"
      using M True b by (intro civil_date_eq) (simp_all add: day d dim)
    with True show ?thesis
      by (simp add: civil_date_def)
  next
    case False
    with b have last: "DayWithinYear t + 1 = month_start ?l (?M + 1)"
      by (simp add: d dim)
    show ?thesis
    proof (cases "?M + 1 < 12")
      case True
      with M have M1: "0 \<le> ?M + 1" "?M + 1 \<le> 11" by simp_all
      have pos: "1 \<le> month_start ?l (?M + 1 + 1) - month_start ?l (?M + 1)"
        using month_cases [OF M1]
        by (elim disjE; simp add: month_start_simps)
      have "civil_date (t + msPerDay) = (?y, ?M + 1 + 1, 1)"
        using M1 pos by (intro civil_date_eq) (simp_all add: day last)
      with True False show ?thesis
        by (simp add: civil_date_def)
    next
      case M11: False
      with M have M11: "?M = 11" by simp
      from last have end_of_year: "DayWithinYear t + 1 = DaysInYear ?y"
        by (simp add: M11 month_start_12)
      have "civil_date (t + msPerDay) = (?y + 1, 0 + 1, 1)"
      proof (rule civil_date_eq)
        show "Day (t + msPerDay)
            = DayFromYear (?y + 1) + month_start (DaysInYear (?y + 1) = 366) 0 + 1 - 1"
          using end_of_year by (simp add: day DayFromYear_step month_start_simps)
        show "1 \<le> month_start (DaysInYear (?y + 1) = 366) (0 + 1)
            - month_start (DaysInYear (?y + 1) = 366) 0"
          by (simp add: month_start_simps)
      qed simp_all
      with False M11 show ?thesis
        by (simp add: civil_date_def)
    qed
  qed
qed

text \<open>The date that \<open>MakeDay\<close> and \<open>MakeDate\<close> make of a date that exists is that date.\<close>

lemma civil_date_MakeDate:
  assumes "1 \<le> m" "m \<le> 12" "1 \<le> d" "d \<le> days_in_month y m"
  shows "civil_date (MakeDate (MakeDay y (m - 1) d) 0) = (y, m, d)"
    and "TimeWithinDay (MakeDate (MakeDay y (m - 1) d) 0) = 0"
proof -
  have m: "(m - 1) div 12 = 0" "(m - 1) mod 12 = m - 1"
    using assms(1,2) by simp_all
  have day: "Day (MakeDate (MakeDay y (m - 1) d) 0)
      = DayFromYear y + month_start (DaysInYear y = 366) (m - 1) + d - 1"
    by (simp add: MakeDate_def MakeDay_def m Day_def msPerDay_def)
  have "civil_date (MakeDate (MakeDay y (m - 1) d) 0) = (y, m - 1 + 1, d)"
    using assms by (intro civil_date_eq) (simp_all add: day days_in_month_def)
  then show "civil_date (MakeDate (MakeDay y (m - 1) d) 0) = (y, m, d)"
    by simp
  show "TimeWithinDay (MakeDate (MakeDay y (m - 1) d) 0) = 0"
    by (simp add: MakeDate_def TimeWithinDay_def)
qed

lemma parse_date_only_civil:
  assumes "parse_date_only s = Some t"
  shows "civil_date t = written_date s" and "TimeWithinDay t = 0"
proof -
  define y m d where "y = int (parseInt (take 4 s))"
    and "m = int (parseInt (take 2 (drop 5 s)))" and "d = int (parseInt (drop 8 s))"
  from assms have ok: "1 \<le> m" "m \<le> 12" "1 \<le> d" "d \<le> days_in_month y m"
    and t: "t = MakeDate (MakeDay y (m - 1) d) 0"
    by (auto simp: parse_date_only_def Let_def y_def m_def d_def days_in_month_def
        split: if_splits)
  from civil_date_MakeDate [OF ok] show "civil_date t = written_date s" "TimeWithinDay t = 0"
    by (simp_all add: t written_date_def y_def m_def d_def)
qed

subsection \<open>The manifest\<close>

lemma set_value0_Inr:
  "set_value0 slot v = Inr fs \<longleftrightarrow> (\<exists>f rest. slot = f # rest \<and> fs = f\<lparr>fvalue := v\<rparr> # rest)"
  by (cases slot) (auto simp: set_value0_def)

lemma build_pass_Inr:
  assumes "build_pass e req = Inr m"
  shows "\<exists>t0 hf pf sf.
    template e = Some t0 \<and>
    set_value0 (primaryFields (coupon t0)) (to_jsval (discount req)) = Inr pf \<and>
    (if truthy (serviceType req)
      then set_value0 (secondaryFields (coupon t0)) (to_jsval (serviceType req))
      else Inr (secondaryFields (coupon t0))) = Inr sf \<and>
    (case expiryDate req of
        None \<Rightarrow> Inr (headerFields (coupon t0))
      | Some s \<Rightarrow>
          if s = [] then Inr (headerFields (coupon t0))
          else set_value0 (headerFields (coupon t0)) (JDate (expirationDate e s))) = Inr hf \<and>
    m = t0\<lparr>serialNumber := uniqueId e, barcode := the_barcode e req,
            barcodes := [the_barcode e req],
            backgroundColor := or_default (request.backgroundColor req) DEFAULT_BACKGROUND_COLOR,
            coupon := \<lparr>headerFields = hf, primaryFields = pf, secondaryFields = sf\<rparr>\<rparr>"
proof -
  from assms obtain t0 where t0: "template e = Some t0"
    by (auto simp: build_pass_def split: option.splits)
  let ?P = "set_value0 (primaryFields (coupon t0)) (to_jsval (discount req))"
  let ?S = "if truthy (serviceType req)
      then set_value0 (secondaryFields (coupon t0)) (to_jsval (serviceType req))
      else Inr (secondaryFields (coupon t0))"
  let ?H = "case expiryDate req of
        None \<Rightarrow> Inr (headerFields (coupon t0))
      | Some s \<Rightarrow>
          if s = [] then Inr (headerFields (coupon t0))
          else set_value0 (headerFields (coupon t0)) (JDate (expirationDate e s))"
  let ?M = "\<lambda>hf pf sf. t0\<lparr>serialNumber := uniqueId e, barcode := the_barcode e req,
            barcodes := [the_barcode e req],
            backgroundColor := or_default (request.backgroundColor req) DEFAULT_BACKGROUND_COLOR,
            coupon := \<lparr>headerFields = hf, primaryFields = pf, secondaryFields = sf\<rparr>\<rparr>"
  have sel: "coupon (t0\<lparr>serialNumber := uniqueId e, barcode := the_barcode e req,
            barcodes := [the_barcode e req],
            backgroundColor := or_default (request.backgroundColor req) DEFAULT_BACKGROUND_COLOR\<rparr>)
         = coupon t0"
    by simp
  have unfolded: "build_pass e req =
      (case ?P of Inl err \<Rightarrow> Inl err | Inr pf \<Rightarrow>
       case ?S of Inl err \<Rightarrow> Inl err | Inr sf \<Rightarrow>
       case ?H of Inl err \<Rightarrow> Inl err | Inr hf \<Rightarrow> Inr (?M hf pf sf))"
    unfolding build_pass_def t0 Let_def option.case sel by (rule refl)
  from assms obtain pf where pf: "?P = Inr pf"
    unfolding unfolded by (cases ?P) auto
  from assms obtain sf where sf: "?S = Inr sf"
    unfolding unfolded pf by (cases ?S) auto
  from assms obtain hf where hf: "?H = Inr hf"
    unfolding unfolded pf sf by (cases ?H) auto
  from assms have "m = ?M hf pf sf"
    unfolding unfolded pf sf hf by simp
  with t0 pf sf hf show ?thesis by blast
qed

lemma build_pass_template: "build_pass e req = Inr m \<Longrightarrow> \<exists>t0. template e = Some t0"
  by (auto simp: build_pass_def split: option.splits)

lemma build_pass_serial: "build_pass e req = Inr m \<Longrightarrow> serialNumber m = uniqueId e"
  by (drule build_pass_Inr) auto

lemma build_pass_barcode:
  "build_pass e req = Inr m \<Longrightarrow> barcode m = the_barcode e req \<and> barcodes m = [the_barcode e req]"
  by (drule build_pass_Inr) auto


subsection \<open>The files\<close>

lemma cleanupFiles_other: "p \<notin> set files \<Longrightarrow> cleanupFiles files fs0 p = fs0 p"
  unfolding cleanupFiles_def
  by (induction files arbitrary: fs0) auto

lemma cleanupFiles_removed: "p \<in> set files \<Longrightarrow> cleanupFiles files fs0 p = None"
  unfolding cleanupFiles_def
proof (induction files arbitrary: fs0)
  case Nil
  then show ?case by simp
next
  case (Cons f files)
  show ?case
  proof (cases "p \<in> set files")
    case True
    with Cons.IH show ?thesis by simp
  next
    case False
    with Cons.prems have "p = f" by simp
    with False show ?thesis
      using cleanupFiles_other [of p files, unfolded cleanupFiles_def]
      by (auto simp: domIff)
  qed
qed

lemma processBase64Image_Inr:
  assumes "processBase64Image e img bg fs0 = (Inr imgs, fs1)"
  shows "imgs = \<lparr>strip = js ''/tmp/strip.png'', strip2x = js ''/tmp/strip@2x.png'',
                  strip3x = js ''/tmp/strip@3x.png''\<rparr>"
    and "strips_ok e img"
    and "js ''/tmp/strip.png'' \<in> dom fs1 \<and> js ''/tmp/strip@2x.png'' \<in> dom fs1
           \<and> js ''/tmp/strip@3x.png'' \<in> dom fs1"
    and "\<And>p. p \<notin> {js ''/tmp/strip.png'', js ''/tmp/strip@2x.png'', js ''/tmp/strip@3x.png''}
           \<Longrightarrow> fs1 p = fs0 p"
  using assms
  by (auto simp: processBase64Image_def strips_ok_def Let_def path_join_def js_def
      split: if_splits)

lemma process_strip_cases:
  assumes "process_strip e req fs0 = (res, fs1, files)"
  obtains
    (none) "\<not> truthy (stripImage req)" "res = Inr None" "fs1 = fs0" "files = []"
  | (failed) err where "truthy (stripImage req)" "res = Inl err" "files = []"
  | (made) imgs where "truthy (stripImage req)" "res = Inr (Some imgs)"
      "files = [js ''/tmp/strip.png'', js ''/tmp/strip@2x.png'', js ''/tmp/strip@3x.png'']"
      "strips_readable (Some imgs) fs1"
      "\<And>p. p \<notin> set files \<Longrightarrow> fs1 p = fs0 p"
proof (cases "truthy (stripImage req)")
  case False
  with assms have "res = Inr None" "fs1 = fs0" "files = []"
    by (auto simp: process_strip_def truthy_def split: option.splits if_splits)
  with False show ?thesis by (rule none)
next
  case True
  then obtain img where img: "stripImage req = Some img" "img \<noteq> []"
    by (auto simp: truthy_def split: option.splits)
  obtain r fs' where p: "processBase64Image e img
      (or_default (request.backgroundColor req) DEFAULT_BACKGROUND_COLOR) fs0 = (r, fs')"
    by (cases "processBase64Image e img
      (or_default (request.backgroundColor req) DEFAULT_BACKGROUND_COLOR) fs0") auto
  show ?thesis
  proof (cases r)
    case (Inl err)
    with assms img p have "res = Inl err" "files = []"
      by (auto simp: process_strip_def)
    with True show ?thesis by (rule failed)
  next
    case (Inr imgs)
    note facts = processBase64Image_Inr [OF p [unfolded Inr]]
    from assms img p Inr have eqs: "res = Inr (Some imgs)" "fs1 = fs'"
      "files = [strip imgs, strip2x imgs, strip3x imgs]"
      by (auto simp: process_strip_def)
    have f: "files = [js ''/tmp/strip.png'', js ''/tmp/strip@2x.png'', js ''/tmp/strip@3x.png'']"
      unfolding eqs facts(1) by simp
    have rd: "strips_readable (Some imgs) fs1"
      using facts(3) unfolding eqs facts(1) strips_readable_def by simp
    have other: "\<And>p. p \<notin> set files \<Longrightarrow> fs1 p = fs0 p"
      unfolding f eqs using facts(4) by simp
    from True eqs(1) f rd other show ?thesis by (rule made)
  qed
qed

subsection \<open>Identifiers\<close>

lemma toString_digits: "\<forall>c \<in> set (toString n). is_digit c"
proof (induction n rule: toString.induct)
  case (1 n)
  show ?case
  proof (cases "n < 10")
    case True
    then show ?thesis
      by (subst toString.simps) (simp add: is_digit_def)
  next
    case False
    have "n mod 10 < 10" by simp
    then have "is_digit (48 + n mod 10)"
      unfolding is_digit_def by linarith
    with False 1 show ?thesis
      by (subst toString.simps) auto
  qed
qed

lemma takeWhile_stop:
  "\<forall>x \<in> set xs. P x \<Longrightarrow> \<not> P y \<Longrightarrow> takeWhile P (xs @ y # zs) = xs"
  by (induction xs) auto

lemma basename_append:
  "47 \<notin> set name \<Longrightarrow> basename (dir @ 47 # name) = name"
proof -
  assume a: "47 \<notin> set name"
  have "takeWhile (\<lambda>c. c \<noteq> 47) (rev name @ 47 # rev dir) = rev name"
    using a by (intro takeWhile_stop) auto
  then show ?thesis
    by (simp add: basename_def)
qed

lemma pkpass_stem_id:
  assumes "\<forall>c \<in> set ident. is_digit c"
  shows "pkpass_stem (dir @ js ''/'' @ ident @ js ''.pkpass'') = Some ident"
proof -
  have no: "47 \<notin> set (ident @ js ''.pkpass'')"
    using assms by (auto simp: js_def is_digit_def)
  have "basename (dir @ js ''/'' @ ident @ js ''.pkpass'') = ident @ js ''.pkpass''"
    using basename_append [OF no, of dir] by (simp add: js_def)
  moreover have "length (js ''.pkpass'') = 7"
    by (simp add: js_def)
  ultimately show ?thesis
    by (simp add: pkpass_stem_def)
qed

lemma pkpass_stem_downloadUrl: "pkpass_stem (downloadUrl e req) = Some (uniqueId e)"
proof -
  have "downloadUrl e req
      = (protocol req @ js ''://'' @ host req @ js ''/passes'') @ js ''/'' @ uniqueId e @ js ''.pkpass''"
    by (simp add: downloadUrl_def js_def)
  moreover have "\<forall>c \<in> set (uniqueId e). is_digit c"
    unfolding uniqueId_def by (rule toString_digits)
  ultimately show ?thesis
    by (simp only: pkpass_stem_id)
qed

lemma pkpass_stem_passPath:
  "pkpass_stem (path_join (js ''temp'') (uniqueId e @ js ''.pkpass'')) = Some (uniqueId e)"
  unfolding path_join_def uniqueId_def
  by (rule pkpass_stem_id) (rule toString_digits)

lemma passPath_not_scratch:
  "path_join (js ''temp'') name
     \<notin> set [js ''/tmp/strip.png'', js ''/tmp/strip@2x.png'', js ''/tmp/strip@3x.png'']"
  by (simp add: path_join_def js_def)

subsection \<open>The handler\<close>

lemma generate_pass_Success:
  assumes "generate_pass e req fs0 = (Success passUrl passId, fs1)"
  shows "\<exists>m stripImages fs' files.
           process_strip e req fs0 = (Inr stripImages, fs', files) \<and>
           build_pass e req = Inr m \<and>
           icons_ok e \<and> PKPass_ok e m \<and> writeFile_ok e \<and>
           passUrl = downloadUrl e req \<and> passId = uniqueId e \<and>
           fs1 = cleanupFiles files
                   (fs'(path_join (js ''temp'') (uniqueId e @ js ''.pkpass'')
                          \<mapsto> Pkpass m (stripImages \<noteq> None)))"
  using assms
  by (auto simp: generate_pass_def try_body_def Let_def
           split: prod.splits sum.splits if_splits)


subsection \<open>Outcomes of the handler\<close>



text \<open>
  When the three strips were made, none of them is left after the handler, whether the
  request succeeds or fails later.
\<close>

lemma scratch_removed_after_derivation:
  assumes "process_strip e req fs0 = (Inr (Some imgs), fs', files)"
    and "generate_pass e req fs0 = (resp, fs1)"
    and "p \<in> {js ''/tmp/strip.png'', js ''/tmp/strip@2x.png'', js ''/tmp/strip@3x.png''}"
  shows "fs1 p = None"
proof -
  from assms(1) have files: "files = [js ''/tmp/strip.png'', js ''/tmp/strip@2x.png'', js ''/tmp/strip@3x.png'']"
    by (cases rule: process_strip_cases) auto
  with assms(3) have p: "p \<in> set files" by auto
  from assms(1,2) have "\<exists>fs2. fs1 = cleanupFiles files fs2"
    by (auto simp: generate_pass_def try_body_def Let_def split: sum.splits if_splits)
  with p show ?thesis
    by (auto simp: cleanupFiles_removed)
qed

lemma toString_not_Nil: "toString n \<noteq> []"
  by (subst toString.simps) simp

text \<open>Two readings of the clock give the same identifier only if they are the same.\<close>

lemma toString_inj: "toString n = toString k \<Longrightarrow> n = k"
proof (induction n arbitrary: k rule: toString.induct)
  case (1 n)
  show ?case
  proof (cases "n < 10")
    case True
    show ?thesis
    proof (cases "k < 10")
      case k: True
      from "1.prems" True k show ?thesis
        by (simp add: toString.simps [of n] toString.simps [of k])
    next
      case k: False
      from "1.prems" True k toString_not_Nil [of "k div 10"] show ?thesis
        by (simp add: toString.simps [of n] toString.simps [of k] Cons_eq_append_conv)
    qed
  next
    case False
    show ?thesis
    proof (cases "k < 10")
      case k: True
      from "1.prems" False k toString_not_Nil [of "n div 10"] show ?thesis
        by (simp add: toString.simps [of n] toString.simps [of k] append_eq_Cons_conv)
    next
      case k: False
      from "1.prems" False k
      have "toString (n div 10) = toString (k div 10)" and "n mod 10 = k mod 10"
        by (simp_all add: toString.simps [of n] toString.simps [of k])
      with "1.IH" [OF False] have "n div 10 = k div 10" by blast
      with \<open>n mod 10 = k mod 10\<close> show ?thesis
        by (metis div_mult_mod_eq)
    qed
  qed
qed

lemma serial_is_clock:
  "build_pass e1 req1 = Inr m1 \<Longrightarrow> build_pass e2 req2 = Inr m2 \<Longrightarrow>
     serialNumber m1 = serialNumber m2 \<longleftrightarrow> now e1 = now e2"
  by (auto simp: build_pass_serial uniqueId_def dest: toString_inj)

text \<open>
  An expiry date that \<open>new Date\<close> cannot read gives an invalid date in the header field,
  which \<open>JSON.stringify\<close> writes as \<open>null\<close>.
\<close>

lemma expiry_not_a_date:
  assumes "build_pass e req = Inr m" "expiryDate req = Some s" "s \<noteq> []"
    and "new_Date (other_date_formats e) s = None"
  shows "\<exists>f rest. headerFields (coupon m) = f\<lparr>fvalue := JDate None\<rparr> # rest"
    and "toJSON None = None"
proof -
  from assms(1) obtain t0 where t0: "template e = Some t0"
    using build_pass_template by blast
  from build_pass_Inr [OF assms(1)] t0 obtain hf where
    "(case expiryDate req of
        None \<Rightarrow> Inr (headerFields (coupon t0))
      | Some s \<Rightarrow>
          if s = [] then Inr (headerFields (coupon t0))
          else set_value0 (headerFields (coupon t0)) (JDate (expirationDate e s))) = Inr hf"
    "headerFields (coupon m) = hf"
    by auto
  with assms show "\<exists>f rest. headerFields (coupon m) = f\<lparr>fvalue := JDate None\<rparr> # rest"
    by (auto simp: expirationDate_eq set_value0_Inr)
  show "toJSON None = None"
    by (simp add: toJSON_def)
qed

subsection \<open>The example inputs, evaluated\<close>

lemma example_env_simps:
  "now example_env = 1700000000000" "template example_env = Some example_template"
  "sharp_ok example_env img path = (img = tiny_png)"
  "icons_ok example_env" "PKPass_ok example_env = example_signer" "writeFile_ok example_env"
  "tz example_env t u = 0" "other_date_formats example_env s = None"
  by (simp_all add: example_env_def)

lemma strip2x_fails_env_simps:
  "sharp_ok strip2x_fails_env img path = (img = tiny_png \<and> path \<noteq> js ''/tmp/strip@2x.png'')"
  by (simp add: strip2x_fails_env_def)

lemma new_york_env_simps:
  "now new_york_env = 1700000000000" "template new_york_env = Some example_template"
  "tz new_york_env = new_york_tz" "other_date_formats new_york_env s = None"
  by (simp_all add: new_york_env_def example_env_def)

lemma example_request_simps:
  "expiryDate example_request = Some (js ''2025-01-10'')"
  "serviceType example_request = Some (js ''Gold'')"
  "discount example_request = Some (js ''20'')"
  "request.backgroundColor example_request = Some (js ''#ff0000'')"
  "stripImage example_request = None"
  "protocol example_request = js ''https''" "host example_request = js ''example.com''"
  by (simp_all add: example_request_def)

lemma minimal_request_simps:
  "expiryDate minimal_request = None" "serviceType minimal_request = None"
  "discount minimal_request = Some (js ''15'')"
  "request.backgroundColor minimal_request = None" "stripImage minimal_request = None"
  "protocol minimal_request = js ''https''" "host minimal_request = js ''example.com''"
  by (simp_all add: minimal_request_def)

lemma empty_texts_request_simps:
  "expiryDate empty_texts_request = Some []" "serviceType empty_texts_request = Some []"
  "discount empty_texts_request = Some (js ''15'')"
  "request.backgroundColor empty_texts_request = None" "stripImage empty_texts_request = None"
  "protocol empty_texts_request = js ''https''" "host empty_texts_request = js ''example.com''"
  by (simp_all add: empty_texts_request_def minimal_request_def)

lemma image_request_simps:
  "stripImage image_request = Some tiny_png"
  "request.backgroundColor image_request = None"
  by (simp_all add: image_request_def minimal_request_def)

lemma march_request_simps:
  "expiryDate march_request = Some (js ''2025-03-09'')" "serviceType march_request = None"
  "discount march_request = Some (js ''15'')"
  "request.backgroundColor march_request = None" "stripImage march_request = None"
  "protocol march_request = js ''https''" "host march_request = js ''example.com''"
  by (simp_all add: march_request_def minimal_request_def)

lemma tiny_png_not_Nil: "tiny_png \<noteq> []"
  by (simp add: tiny_png_def js_def)

lemma uniqueId_example:
  "uniqueId example_env = js ''1700000000000''" "uniqueId new_york_env = js ''1700000000000''"
  by (simp_all add: uniqueId_def example_env_simps new_york_env_simps toString.simps js_def)

lemma downloadUrl_example:
  "downloadUrl example_env example_request = js ''https://example.com/passes/1700000000000.pkpass''"
  "downloadUrl example_env minimal_request = js ''https://example.com/passes/1700000000000.pkpass''"
  "downloadUrl example_env empty_texts_request = js ''https://example.com/passes/1700000000000.pkpass''"
  "downloadUrl new_york_env march_request = js ''https://example.com/passes/1700000000000.pkpass''"
  by (simp_all add: downloadUrl_def uniqueId_example example_request_simps minimal_request_simps
        empty_texts_request_simps march_request_simps js_def)

lemma passPath_example:
  "path_join (js ''temp'') (js ''1700000000000'' @ js ''.pkpass'') = js ''temp/1700000000000.pkpass''"
  by (simp add: path_join_def js_def)

lemma the_barcode_example:
  "the_barcode example_env example_request = example_barcode"
  "the_barcode example_env minimal_request = example_barcode"
  "the_barcode example_env empty_texts_request = example_barcode"
  "the_barcode new_york_env march_request = example_barcode"
  by (simp_all add: the_barcode_def downloadUrl_example example_barcode_def)

lemma parse_date_only_example:
  "parse_date_only (js ''2025-01-10'') = Some 1736467200000"
  "parse_date_only (js ''2025-03-09'') = Some 1741478400000"
  by (simp_all add: parse_date_only_def js_def is_digit_def parseInt_def DaysInYear_def
      month_start_def MakeDate_def MakeDay_def DayFromYear_def msPerDay_def)

lemma written_date_example:
  "written_date (js ''2025-01-10'') = (2025, 1, 10)"
  "written_date (js ''2025-03-09'') = (2025, 3, 9)"
  by (simp_all add: written_date_def js_def parseInt_def)

lemma next_day_example:
  "next_day (2025, 1, 10) = (2025, 1, 11)" "next_day (2025, 3, 9) = (2025, 3, 10)"
  by (simp_all add: days_in_month_def DaysInYear_def month_start_def)

lemma new_Date_example:
  "new_Date (other_date_formats example_env) (js ''2025-01-10'') = Some 1736467200000"
  "new_Date (other_date_formats new_york_env) (js ''2025-03-09'') = Some 1741478400000"
  by (simp_all add: new_Date_def Date_parse_def parse_date_only_example TimeClip_def)

lemma expirationDate_example:
  "expirationDate example_env (js ''2025-01-10'') = Some 1736553600000"
  by (simp add: expirationDate_eq new_Date_example example_env_simps UTC_def LocalTime_def
      TimeClip_def msPerDay_def)

lemma expirationDate_new_york:
  "expirationDate new_york_env (js ''2025-03-09'') = Some 1741561200000"
  by (simp add: expirationDate_eq new_Date_example new_york_env_simps new_york_tz_def
      UTC_def LocalTime_def TimeClip_def msPerDay_def)

lemma toJSON_example:
  "toJSON (Some 1736553600000) = Some (js ''2025-01-11T00:00:00.000Z'')"
  "toJSON (Some 1741561200000) = Some (js ''2025-03-09T23:00:00.000Z'')"
  unfolding toJSON_def option.case by code_simp+

lemma civil_date_example:
  "civil_date 1741561200000 = (2025, 3, 9)"
  by code_simp

lemma js_not_Nil:
  "js ''2025-01-10'' \<noteq> []" "js ''Gold'' \<noteq> []" "js ''#ff0000'' \<noteq> []"
  "js ''2025-03-09'' \<noteq> []"
  by (simp_all add: js_def)


lemma build_pass_example: "build_pass example_env example_request = Inr example_manifest"
  by (simp add: build_pass_def example_env_simps example_request_simps example_template_def
      uniqueId_example the_barcode_example expirationDate_example js_not_Nil
      set_value0_def to_jsval_def truthy_def or_default_def example_manifest_def)

lemma build_pass_minimal: "build_pass example_env minimal_request = Inr minimal_manifest"
  by (simp add: build_pass_def example_env_simps minimal_request_simps example_template_def
      uniqueId_example the_barcode_example
      set_value0_def to_jsval_def truthy_def or_default_def minimal_manifest_def
      DEFAULT_BACKGROUND_COLOR_def)

lemma build_pass_empty_texts: "build_pass example_env empty_texts_request = Inr minimal_manifest"
  by (simp add: build_pass_def example_env_simps empty_texts_request_simps example_template_def
      uniqueId_example the_barcode_example
      set_value0_def to_jsval_def truthy_def or_default_def minimal_manifest_def
      DEFAULT_BACKGROUND_COLOR_def)

lemma build_pass_march: "build_pass new_york_env march_request = Inr march_manifest"
  by (simp add: build_pass_def new_york_env_simps march_request_simps example_template_def
      uniqueId_example the_barcode_example expirationDate_new_york js_not_Nil
      set_value0_def to_jsval_def truthy_def or_default_def march_manifest_def
      DEFAULT_BACKGROUND_COLOR_def)

lemma example_signer_accepts:
  "example_signer example_manifest" "example_signer minimal_manifest"
  by (simp_all add: example_signer_def example_manifest_def minimal_manifest_def
      DEFAULT_BACKGROUND_COLOR_def)

lemma generate_pass_example:
  "generate_pass example_env example_request fs0 =
     (Success (js ''https://example.com/passes/1700000000000.pkpass'') (js ''1700000000000''),
      fs0(js ''temp/1700000000000.pkpass'' \<mapsto> Pkpass example_manifest False))"
  by (simp add: generate_pass_def try_body_def process_strip_def example_request_simps
      build_pass_example example_env_simps example_signer_accepts strips_readable_def
      downloadUrl_example uniqueId_example passPath_example cleanupFiles_def)

text \<open>
  A text that is no image, here the base64 text of \<open>hello\<close>, fails at the first strip
  and leaves no file.
\<close>

lemma undecodable_image_leaves_nothing:
  "generate_pass strip2x_fails_env (image_request\<lparr>stripImage := Some (js ''aGVsbG8='')\<rparr>) Map.empty
     = (Failure ImageProcessingFailed, Map.empty)"
proof -
  have "js ''aGVsbG8='' \<noteq> tiny_png" "js ''aGVsbG8='' \<noteq> []"
    by (simp_all add: tiny_png_def js_def)
  then show ?thesis
    by (simp add: generate_pass_def try_body_def process_strip_def processBase64Image_def
        strip2x_fails_env_simps cleanupFiles_def)
qed

section \<open>The claims\<close>




text \<open>
  C2. When a request succeeds, the identifier of the response is the serial number of the
  manifest, the file name without \<open>.pkpass\<close> at the end of the URL in the message of
  the barcode and of the only element of the list of barcodes, and the file name without
  \<open>.pkpass\<close> of the archive, which is in \<open>temp\<close> and holds this manifest.
\<close>

theorem serial_url_archive_agree:
  assumes "generate_pass e req fs0 = (Success passUrl passId, fs1)"
  shows "\<exists>m strips.
           fs1 (path_join (js ''temp'') (passId @ js ''.pkpass'')) = Some (Pkpass m strips)
           \<and> serialNumber m = passId
           \<and> message (barcode m) = passUrl
           \<and> map message (barcodes m) = [passUrl]
           \<and> pkpass_stem (message (barcode m)) = Some (serialNumber m)
           \<and> pkpass_stem (message (hd (barcodes m))) = Some (serialNumber m)
           \<and> pkpass_stem (path_join (js ''temp'') (passId @ js ''.pkpass'')) = Some (serialNumber m)"
proof -
  from assms obtain m stripImages fs' files where
    strip: "process_strip e req fs0 = (Inr stripImages, fs', files)" and
    m: "build_pass e req = Inr m" and
    url: "passUrl = downloadUrl e req" and ident: "passId = uniqueId e" and
    fs1: "fs1 = cleanupFiles files
                   (fs'(path_join (js ''temp'') (uniqueId e @ js ''.pkpass'')
                          \<mapsto> Pkpass m (stripImages \<noteq> None)))"
    using generate_pass_Success by blast
  from strip have "set files \<subseteq>
      set [js ''/tmp/strip.png'', js ''/tmp/strip@2x.png'', js ''/tmp/strip@3x.png'']"
    by (cases rule: process_strip_cases) auto
  then have "path_join (js ''temp'') (uniqueId e @ js ''.pkpass'') \<notin> set files"
    using passPath_not_scratch by blast
  then have stored: "fs1 (path_join (js ''temp'') (passId @ js ''.pkpass''))
      = Some (Pkpass m (stripImages \<noteq> None))"
    unfolding fs1 ident by (simp add: cleanupFiles_other)
  have serial: "serialNumber m = passId"
    using m ident by (simp add: build_pass_serial)
  have bc: "barcode m = the_barcode e req" "barcodes m = [the_barcode e req]"
    using m by (simp_all add: build_pass_barcode)
  have msg: "message (the_barcode e req) = passUrl"
    by (simp add: the_barcode_def url)
  have stem_url: "pkpass_stem passUrl = Some passId"
    unfolding url ident by (rule pkpass_stem_downloadUrl)
  have stem_path: "pkpass_stem (path_join (js ''temp'') (passId @ js ''.pkpass'')) = Some passId"
    unfolding ident by (rule pkpass_stem_passPath)
  from stored serial bc msg stem_url stem_path show ?thesis
    by simp
qed

theorem serial_url_archive_agree_witness:
  "generate_pass example_env example_request Map.empty
     = (Success (js ''https://example.com/passes/1700000000000.pkpass'') (js ''1700000000000''),
        [js ''temp/1700000000000.pkpass'' \<mapsto> Pkpass example_manifest False])
   \<and> serialNumber example_manifest = js ''1700000000000''
   \<and> pkpass_stem (message (barcode example_manifest)) = Some (js ''1700000000000'')
   \<and> pkpass_stem (message (hd (barcodes example_manifest))) = Some (js ''1700000000000'')
   \<and> pkpass_stem (js ''temp/1700000000000.pkpass'') = Some (js ''1700000000000'')"
proof -
  note g = generate_pass_example [of Map.empty]
  from serial_url_archive_agree [OF g] obtain m strips where
    "[js ''temp/1700000000000.pkpass'' \<mapsto> Pkpass example_manifest False]
        (path_join (js ''temp'') (js ''1700000000000'' @ js ''.pkpass'')) = Some (Pkpass m strips)"
    and rest: "serialNumber m = js ''1700000000000''"
      "pkpass_stem (message (barcode m)) = Some (serialNumber m)"
      "pkpass_stem (message (hd (barcodes m))) = Some (serialNumber m)"
      "pkpass_stem (path_join (js ''temp'') (js ''1700000000000'' @ js ''.pkpass''))
         = Some (serialNumber m)"
    by blast
  then have "m = example_manifest"
    by (simp add: passPath_example)
  with rest g show ?thesis
    by (simp add: passPath_example)
qed

text \<open>
  C4 fails on the code. The paths of the strips are put on the list of files to delete
  only when \<open>processBase64Image\<close> has returned. The request of the example carries an
  image that the image library decodes, on a server where the second strip cannot be
  written: the first strip is written, the second step fails, the list is still empty,
  and the first strip is there after the response.
\<close>

theorem strip_left_after_partial_failure:
  "stripImage image_request = Some tiny_png
   \<and> sharp_ok strip2x_fails_env tiny_png (js ''/tmp/strip.png'')
   \<and> \<not> sharp_ok strip2x_fails_env tiny_png (js ''/tmp/strip@2x.png'')
   \<and> generate_pass strip2x_fails_env image_request Map.empty =
       (Failure ImageProcessingFailed, [js ''/tmp/strip.png'' \<mapsto> Strip])"
proof -
  have paths: "path_join (js ''/tmp'') (js ''strip.png'') = js ''/tmp/strip.png''"
    "path_join (js ''/tmp'') (js ''strip@2x.png'') = js ''/tmp/strip@2x.png''"
    "js ''/tmp/strip.png'' \<noteq> js ''/tmp/strip@2x.png''"
    by (simp_all add: path_join_def js_def)
  show ?thesis
    by (simp add: generate_pass_def try_body_def process_strip_def image_request_simps
        tiny_png_not_Nil processBase64Image_def paths strip2x_fails_env_simps cleanupFiles_def)
qed

text \<open>
  C5, as the code has it. The colour resolved from the field of a request is
  \<open>parseRGBColor (backgroundColor || DEFAULT_BACKGROUND_COLOR)\<close>. If the text has the
  form \<open>rgb(d1,d2,d3)\<close>, white space allowed after each comma, with the three numbers at
  most 255, the colour is these three numbers; this holds too when other text stands
  around it, as long as it is the first such form in the text. If the text holds no such
  form at all, or the field is absent, the colour is the default, \<open>rgb(41, 128, 185)\<close>.
\<close>

theorem resolved_color:
  "(digits d1 \<and> digits d2 \<and> digits d3 \<and> spaces w1 \<and> spaces w2
      \<and> parseInt d1 \<le> 255 \<and> parseInt d2 \<le> 255 \<and> parseInt d3 \<le> 255
      \<and> \<not> contains_rgb pre \<longrightarrow>
    parseRGBColor
      (or_default (Some (pre @ rgb_form d1 w1 d2 w2 d3 @ post)) DEFAULT_BACKGROUND_COLOR)
      = \<lparr>r = parseInt d1, g = parseInt d2, b = parseInt d3\<rparr>)
   \<and> (\<not> contains_rgb s \<longrightarrow>
        parseRGBColor (or_default (Some s) DEFAULT_BACKGROUND_COLOR)
          = \<lparr>r = 41, g = 128, b = 185\<rparr>)
   \<and> parseRGBColor (or_default None DEFAULT_BACKGROUND_COLOR) = \<lparr>r = 41, g = 128, b = 185\<rparr>"
proof (intro conjI impI)
  assume a: "digits d1 \<and> digits d2 \<and> digits d3 \<and> spaces w1 \<and> spaces w2
      \<and> parseInt d1 \<le> 255 \<and> parseInt d2 \<le> 255 \<and> parseInt d3 \<le> 255
      \<and> \<not> contains_rgb pre"
  have "pre @ rgb_form d1 w1 d2 w2 d3 @ post \<noteq> []"
    by (simp add: rgb_form_def js_def)
  then have "or_default (Some (pre @ rgb_form d1 w1 d2 w2 d3 @ post)) DEFAULT_BACKGROUND_COLOR
      = pre @ rgb_form d1 w1 d2 w2 d3 @ post"
    by (rule or_default_Some)
  with a show "parseRGBColor
      (or_default (Some (pre @ rgb_form d1 w1 d2 w2 d3 @ post)) DEFAULT_BACKGROUND_COLOR)
      = \<lparr>r = parseInt d1, g = parseInt d2, b = parseInt d3\<rparr>"
    by (simp add: parseRGBColor_first_match)
next
  have dflt: "parseRGBColor DEFAULT_BACKGROUND_COLOR = \<lparr>r = 41, g = 128, b = 185\<rparr>"
    by (simp add: parseRGBColor.simps [of DEFAULT_BACKGROUND_COLOR] rgb_match_DEFAULT
        parseInt_DEFAULT)
  then show "parseRGBColor (or_default None DEFAULT_BACKGROUND_COLOR) = \<lparr>r = 41, g = 128, b = 185\<rparr>"
    by (simp add: or_default_def)
  assume "\<not> contains_rgb s"
  then have "parseRGBColor s = \<lparr>r = 41, g = 128, b = 185\<rparr>"
    by (simp add: parseRGBColor_no_match rgb_match_None_iff)
  with dflt show "parseRGBColor (or_default (Some s) DEFAULT_BACKGROUND_COLOR)
      = \<lparr>r = 41, g = 128, b = 185\<rparr>"
    by (simp add: or_default_def)
qed

theorem resolved_color_witness:
  "parseRGBColor (or_default (Some (js ''rgb(10,20, 30)'')) DEFAULT_BACKGROUND_COLOR)
     = \<lparr>r = 10, g = 20, b = 30\<rparr>
   \<and> \<not> contains_rgb (js ''not-a-color'')
   \<and> parseRGBColor (or_default (Some (js ''not-a-color'')) DEFAULT_BACKGROUND_COLOR)
       = \<lparr>r = 41, g = 128, b = 185\<rparr>"
proof -
  have d: "digits (js ''10'')" "digits (js ''20'')" "digits (js ''30'')"
    and w: "spaces []" "spaces (js '' '')"
    by (simp_all add: digits_def spaces_def js_def is_digit_def is_space_def)
  have v: "parseInt (js ''10'') = 10" "parseInt (js ''20'') = 20" "parseInt (js ''30'') = 30"
    by (simp_all add: parseInt_def js_def)
  have e: "\<not> contains_rgb []"
    using contains_rgb_not_Nil by blast
  have f: "[] @ rgb_form (js ''10'') [] (js ''20'') (js '' '') (js ''30'') @ [] = js ''rgb(10,20, 30)''"
    by (simp add: rgb_form_def js_def)
  have n: "\<not> contains_rgb (js ''not-a-color'')"
    using not_a_color by (simp add: rgb_match_None_iff)
  from resolved_color [of "js ''10''" "js ''20''" "js ''30''" "[]" "js '' ''" "[]" "[]"
      "js ''not-a-color''"] d w v e n
  show ?thesis
    unfolding f by simp
qed

text \<open>
  C5, as the claim states it, fails, when the strings it calls non-matching are all those
  that do not have the form with three numbers up to 255: the text \<open>rgb(999,0,0)\<close>
  is not resolved to the default colour but to the numbers it writes, and so is a text
  that holds a form among other text.
\<close>

theorem out_of_range_not_default:
  "parseRGBColor (or_default (Some (js ''rgb(999,0,0)'')) DEFAULT_BACKGROUND_COLOR)
     = \<lparr>r = 999, g = 0, b = 0\<rparr>
   \<and> parseRGBColor (or_default (Some (js ''see rgb(1,2,3)'')) DEFAULT_BACKGROUND_COLOR)
     = \<lparr>r = 1, g = 2, b = 3\<rparr>"
proof -
  have keep: "or_default (Some (js ''rgb(999,0,0)'')) DEFAULT_BACKGROUND_COLOR = js ''rgb(999,0,0)''"
    "or_default (Some (js ''see rgb(1,2,3)'')) DEFAULT_BACKGROUND_COLOR = js ''see rgb(1,2,3)''"
    by (simp_all add: or_default_def js_def)
  have found: "rgb_match (js ''rgb(999,0,0)'') = Some (js ''999'', js ''0'', js ''0'')"
    "rgb_match (js ''see rgb(1,2,3)'') = Some (js ''1'', js ''2'', js ''3'')"
    by (simp_all add: matcher_defs)
  have numbers: "parseInt (js ''999'') = 999" "parseInt (js ''0'') = 0"
    "parseInt (js ''1'') = 1" "parseInt (js ''2'') = 2" "parseInt (js ''3'') = 3"
    by (simp_all add: parseInt_def js_def)
  show ?thesis
    unfolding keep
    by (simp add: parseRGBColor.simps [of "js ''rgb(999,0,0)''"]
        parseRGBColor.simps [of "js ''see rgb(1,2,3)''"] found numbers)
qed

text \<open>
  C6, as the code has it. When the request carries an expiry date, a text that is not
  empty and that \<open>new Date\<close> reads as the time value \<open>t\<close>, the value of the header
  field of the manifest is the date one day later on the calendar of the server: the same
  time of day, one day on, in local time. Where the offset of local time is the same one
  local day later, as it always is on a server in UTC, this value is \<open>t\<close> plus 86400000
  milliseconds, and its calendar date is the day after the calendar date of \<open>t\<close>; for
  a text \<open>YYYY-MM-DD\<close> it is midnight UTC of the day after the date the text writes. When
  the request carries no expiry date, the header field is the one of the template.
\<close>

theorem header_expiry_next_day:
  "build_pass e req = Inr m \<Longrightarrow> template e = Some t0 \<Longrightarrow>
     (expiryDate req = Some s \<and> s \<noteq> [] \<and> new_Date (other_date_formats e) s = Some t \<longrightarrow>
        (\<exists>f rest.
           headerFields (coupon t0) = f # rest \<and>
           headerFields (coupon m)
             = f\<lparr>fvalue := JDate (TimeClip (UTC (tz e) (LocalTime (tz e) t + msPerDay)))\<rparr> # rest)
        \<and> (tz e (LocalTime (tz e) t + msPerDay) False = tz e t True
              \<and> \<bar>t + msPerDay\<bar> \<le> 8640000000000000 \<longrightarrow>
            TimeClip (UTC (tz e) (LocalTime (tz e) t + msPerDay)) = Some (t + msPerDay)
            \<and> civil_date (t + msPerDay) = next_day (civil_date t)
            \<and> TimeWithinDay (t + msPerDay) = TimeWithinDay t
            \<and> (parse_date_only s = Some t \<longrightarrow>
                  civil_date (t + msPerDay) = next_day (written_date s)
                  \<and> TimeWithinDay (t + msPerDay) = 0)))
     \<and> (expiryDate req = None \<longrightarrow> headerFields (coupon m) = headerFields (coupon t0))"
proof -
  assume m: "build_pass e req = Inr m" and t0: "template e = Some t0"
  from build_pass_Inr [OF m] t0 obtain hf where
    hf: "(case expiryDate req of
            None \<Rightarrow> Inr (headerFields (coupon t0))
          | Some s \<Rightarrow>
              if s = [] then Inr (headerFields (coupon t0))
              else set_value0 (headerFields (coupon t0)) (JDate (expirationDate e s))) = Inr hf"
    and h: "headerFields (coupon m) = hf"
    by auto
  have absent: "expiryDate req = None \<longrightarrow> headerFields (coupon m) = headerFields (coupon t0)"
    using hf h by auto
  have present: "\<exists>f rest.
           headerFields (coupon t0) = f # rest \<and>
           headerFields (coupon m)
             = f\<lparr>fvalue := JDate (TimeClip (UTC (tz e) (LocalTime (tz e) t + msPerDay)))\<rparr> # rest"
    if "expiryDate req = Some s \<and> s \<noteq> [] \<and> new_Date (other_date_formats e) s = Some t"
  proof -
    from that hf have "set_value0 (headerFields (coupon t0)) (JDate (expirationDate e s)) = Inr hf"
      by simp
    moreover from that
    have "expirationDate e s = TimeClip (UTC (tz e) (LocalTime (tz e) t + msPerDay))"
      by (simp add: expirationDate_eq)
    ultimately show ?thesis
      using h by (simp add: set_value0_Inr)
  qed
  have fixed: "TimeClip (UTC (tz e) (LocalTime (tz e) t + msPerDay)) = Some (t + msPerDay)"
    if "tz e (LocalTime (tz e) t + msPerDay) False = tz e t True
          \<and> \<bar>t + msPerDay\<bar> \<le> 8640000000000000"
  proof -
    from that have "UTC (tz e) (LocalTime (tz e) t + msPerDay) = t + msPerDay"
      by (simp add: UTC_def) (simp add: LocalTime_def)
    with that show ?thesis
      by (simp add: TimeClip_def)
  qed
  have written: "civil_date (t + msPerDay) = next_day (written_date s)
      \<and> TimeWithinDay (t + msPerDay) = 0"
    if "parse_date_only s = Some t"
    using parse_date_only_civil [OF that] by (simp add: civil_date_next TimeWithinDay_next)
  from absent present fixed written show ?thesis
    by (simp add: civil_date_next TimeWithinDay_next)
qed

theorem header_expiry_next_day_witness:
  "build_pass example_env example_request = Inr example_manifest
   \<and> expiryDate example_request = Some (js ''2025-01-10'')
   \<and> parse_date_only (js ''2025-01-10'') = Some 1736467200000
   \<and> new_Date (other_date_formats example_env) (js ''2025-01-10'') = Some 1736467200000
   \<and> map fvalue (headerFields (coupon example_manifest)) = [JDate (Some (1736467200000 + 86400000))]
   \<and> civil_date (1736467200000 + 86400000) = (2025, 1, 11)
   \<and> TimeWithinDay (1736467200000 + 86400000) = 0
   \<and> toJSON (Some (1736467200000 + 86400000)) = Some (js ''2025-01-11T00:00:00.000Z'')
   \<and> build_pass example_env minimal_request = Inr minimal_manifest
   \<and> expiryDate minimal_request = None
   \<and> headerFields (coupon minimal_manifest) = headerFields (coupon example_template)"
proof -
  have p: "expiryDate example_request = Some (js ''2025-01-10'') \<and> js ''2025-01-10'' \<noteq> []
      \<and> new_Date (other_date_formats example_env) (js ''2025-01-10'') = Some 1736467200000"
    by (simp add: example_request_simps js_not_Nil new_Date_example)
  have z: "tz example_env (LocalTime (tz example_env) 1736467200000 + msPerDay) False
        = tz example_env 1736467200000 True
      \<and> \<bar>1736467200000 + msPerDay\<bar> \<le> 8640000000000000"
    by (simp add: example_env_simps msPerDay_def)
  note inst = header_expiry_next_day [OF build_pass_example example_env_simps(2),
      of "js ''2025-01-10''" 1736467200000]
  from inst p z
  have "map fvalue (headerFields (coupon example_manifest))
      = [JDate (Some (1736467200000 + 86400000))]"
    by (auto simp: msPerDay_def example_template_def)
  moreover have "civil_date (1736467200000 + 86400000) = (2025, 1, 11)
      \<and> TimeWithinDay (1736467200000 + 86400000) = 0"
  proof -
    from inst p z parse_date_only_example(1)
    have "civil_date (1736467200000 + msPerDay) = next_day (written_date (js ''2025-01-10''))
        \<and> TimeWithinDay (1736467200000 + msPerDay) = 0"
      by blast
    then show ?thesis
      unfolding written_date_example next_day_example msPerDay_def .
  qed
  moreover from header_expiry_next_day [OF build_pass_minimal example_env_simps(2)]
  have "headerFields (coupon minimal_manifest) = headerFields (coupon example_template)"
    by (simp add: minimal_request_simps)
  ultimately show ?thesis
    using p by (simp add: build_pass_example build_pass_minimal minimal_request_simps
        toJSON_example parse_date_only_example)
qed

text \<open>
  C6, as the claim states it, fails on a server whose local time changes its offset. On
  a server in New York the expiry date \<open>2025-03-09\<close> gives the header value
  \<open>2025-03-09T23:00:00.000Z\<close>: its calendar date is the date that was sent, not the day
  after.
\<close>

theorem expiry_on_day_of_offset_change:
  "expiryDate march_request = Some (js ''2025-03-09'')
   \<and> written_date (js ''2025-03-09'') = (2025, 3, 9)
   \<and> build_pass new_york_env march_request = Inr march_manifest
   \<and> map fvalue (headerFields (coupon march_manifest)) = [JDate (Some 1741561200000)]
   \<and> civil_date 1741561200000 = (2025, 3, 9)
   \<and> toJSON (Some 1741561200000) = Some (js ''2025-03-09T23:00:00.000Z'')"
  by (simp add: march_request_simps written_date_example build_pass_march civil_date_example
      toJSON_example march_manifest_def)

text \<open>
  C7. In every manifest the handler builds, the value of the primary field is the
  discount of the request as it was sent; nothing is added to it, and the rest of the
  field and of the slot is as in the template.
\<close>

theorem primary_value_verbatim:
  "build_pass e req = Inr m \<Longrightarrow>
     \<exists>t0 f rest.
       template e = Some t0 \<and> primaryFields (coupon t0) = f # rest
       \<and> primaryFields (coupon m) = f\<lparr>fvalue := to_jsval (discount req)\<rparr> # rest"
proof -
  assume "build_pass e req = Inr m"
  from build_pass_Inr [OF this] obtain t0 pf where
    "template e = Some t0"
    "set_value0 (primaryFields (coupon t0)) (to_jsval (discount req)) = Inr pf"
    "primaryFields (coupon m) = pf"
    by auto
  then show ?thesis
    by (auto simp: set_value0_Inr)
qed

theorem primary_value_verbatim_witness:
  "build_pass example_env example_request = Inr example_manifest
   \<and> discount example_request = Some (js ''20'')
   \<and> map fvalue (primaryFields (coupon example_manifest)) = [JString (js ''20'')]"
proof -
  from primary_value_verbatim [OF build_pass_example]
  have "map fvalue (primaryFields (coupon example_manifest))
      = [to_jsval (discount example_request)]"
    by (auto simp: example_env_simps example_template_def)
  then show ?thesis
    by (simp add: build_pass_example example_request_simps to_jsval_def)
qed

text \<open>
  C8. \<open>parseRGBColor\<close> is total and terminates on every string. The relation
  \<open>parseRGBColor_rel s' s\<close> is the call graph of the definition: the call on \<open>s\<close>
  calls the function on \<open>s'\<close>. Every string is in the domain of the function; a call
  that recurses does so because its argument has no match, it recurses on the default
  colour, and that call does not recurse again, the default colour having a match. So
  every call returns a record: the three numbers of the match, or those of the default
  colour after one step of fallback.
\<close>


theorem parseRGBColor_total:
  "parseRGBColor_dom s
   \<and> (parseRGBColor_rel s' s \<longrightarrow>
        rgb_match s = None \<and> s' = DEFAULT_BACKGROUND_COLOR \<and> \<not> parseRGBColor_rel s'' s')
   \<and> parseRGBColor s =
        (case rgb_match s of
           None \<Rightarrow> \<lparr>r = 41, g = 128, b = 185\<rparr>
         | Some (m1, m2, m3) \<Rightarrow> \<lparr>r = parseInt m1, g = parseInt m2, b = parseInt m3\<rparr>)"
proof (intro conjI impI)
  have "parseRGBColor_dom DEFAULT_BACKGROUND_COLOR"
    by (rule parseRGBColor.domintros) (simp add: rgb_match_DEFAULT)
  then show "parseRGBColor_dom s"
    by (rule parseRGBColor.domintros)
next
  assume rel: "parseRGBColor_rel s' s"
  then show "rgb_match s = None" "s' = DEFAULT_BACKGROUND_COLOR"
    by (auto elim: parseRGBColor_rel.cases)
  then show "\<not> parseRGBColor_rel s'' s'"
    by (auto elim: parseRGBColor_rel.cases simp: rgb_match_DEFAULT)
next
  show "parseRGBColor s =
        (case rgb_match s of
           None \<Rightarrow> \<lparr>r = 41, g = 128, b = 185\<rparr>
         | Some (m1, m2, m3) \<Rightarrow> \<lparr>r = parseInt m1, g = parseInt m2, b = parseInt m3\<rparr>)"
  proof (cases "rgb_match s")
    case None
    then show ?thesis by (simp add: parseRGBColor_no_match)
  next
    case (Some m)
    then show ?thesis by (simp add: parseRGBColor.simps [of s])
  qed
qed

theorem parseRGBColor_total_witness:
  "parseRGBColor_rel DEFAULT_BACKGROUND_COLOR (js ''not-a-color'')
   \<and> \<not> parseRGBColor_rel DEFAULT_BACKGROUND_COLOR DEFAULT_BACKGROUND_COLOR
   \<and> parseRGBColor (js ''not-a-color'') = \<lparr>r = 41, g = 128, b = 185\<rparr>"
proof -
  have h: "parseRGBColor_rel DEFAULT_BACKGROUND_COLOR (js ''not-a-color'')"
    by (rule parseRGBColor_rel.intros) (rule not_a_color)
  with parseRGBColor_total [of "js ''not-a-color''" DEFAULT_BACKGROUND_COLOR DEFAULT_BACKGROUND_COLOR]
  show ?thesis by (simp add: not_a_color)
qed

text \<open>
  C9. The pattern is not anchored and the numbers are not checked. A text that holds the
  form \<open>rgb(d1,d2,d3)\<close> anywhere, for any three runs of digits, has a match, so it is
  never replaced by the default colour; and when the form is the first one in the text,
  the result is the three numbers as written, however large (\<open>parseInt\<close> is exact up to
  \<open>2 ^ 53\<close>), with no limit at 255.
\<close>

theorem parseRGBColor_unanchored_unchecked:
  "digits d1 \<and> digits d2 \<and> digits d3 \<and> spaces w1 \<and> spaces w2 \<longrightarrow>
     rgb_match (pre @ rgb_form d1 w1 d2 w2 d3 @ post) \<noteq> None
     \<and> (\<not> contains_rgb pre
          \<and> parseInt d1 \<le> 2 ^ 53 \<and> parseInt d2 \<le> 2 ^ 53 \<and> parseInt d3 \<le> 2 ^ 53 \<longrightarrow>
        parseRGBColor (pre @ rgb_form d1 w1 d2 w2 d3 @ post)
          = \<lparr>r = parseInt d1, g = parseInt d2, b = parseInt d3\<rparr>)"
proof (intro impI conjI)
  assume a: "digits d1 \<and> digits d2 \<and> digits d3 \<and> spaces w1 \<and> spaces w2"
  then have "rgb_at (rgb_form d1 w1 d2 w2 d3 @ post) = Some (d1, d2, d3)"
    by (simp add: rgb_at_form)
  then show "rgb_match (pre @ rgb_form d1 w1 d2 w2 d3 @ post) \<noteq> None"
    by (rule rgb_match_append)
  assume "\<not> contains_rgb pre
          \<and> parseInt d1 \<le> 2 ^ 53 \<and> parseInt d2 \<le> 2 ^ 53 \<and> parseInt d3 \<le> 2 ^ 53"
  with a show "parseRGBColor (pre @ rgb_form d1 w1 d2 w2 d3 @ post)
          = \<lparr>r = parseInt d1, g = parseInt d2, b = parseInt d3\<rparr>"
    by (simp add: parseRGBColor_first_match)
qed

theorem parseRGBColor_unanchored_unchecked_witness:
  "rgb_match (js ''xx rgb(999, 0, 0) yy'') \<noteq> None
   \<and> parseRGBColor (js ''xx rgb(999, 0, 0) yy'') = \<lparr>r = 999, g = 0, b = 0\<rparr>"
proof -
  have d: "digits (js ''999'')" "digits (js ''0'')"
    and w: "spaces (js '' '')"
    by (simp_all add: digits_def spaces_def js_def is_digit_def is_space_def)
  have v: "parseInt (js ''999'') = 999" "parseInt (js ''0'') = 0"
    by (simp_all add: parseInt_def js_def)
  have "rgb_match (js ''xx '') = None"
    by (simp add: matcher_defs)
  then have e: "\<not> contains_rgb (js ''xx '')"
    by (simp add: rgb_match_None_iff)
  have f: "js ''xx '' @ rgb_form (js ''999'') (js '' '') (js ''0'') (js '' '') (js ''0'') @ js '' yy''
      = js ''xx rgb(999, 0, 0) yy''"
    by (simp add: rgb_form_def js_def)
  from parseRGBColor_unanchored_unchecked [of "js ''999''" "js ''0''" "js ''0''" "js '' ''" "js '' ''"
      "js ''xx ''" "js '' yy''"] d w v e
  show ?thesis
    unfolding f by simp
qed

text \<open>
  C10. A service type or an expiry date that is the empty text is treated as one that is
  absent: the manifest, the response and the files are the same as for the request
  without the field, and the secondary field and the header field are those of the
  template.
\<close>

theorem empty_text_is_absent:
  "build_pass e (req\<lparr>serviceType := Some []\<rparr>) = build_pass e (req\<lparr>serviceType := None\<rparr>)
   \<and> build_pass e (req\<lparr>expiryDate := Some []\<rparr>) = build_pass e (req\<lparr>expiryDate := None\<rparr>)
   \<and> generate_pass e (req\<lparr>serviceType := Some []\<rparr>) fs0
       = generate_pass e (req\<lparr>serviceType := None\<rparr>) fs0
   \<and> generate_pass e (req\<lparr>expiryDate := Some []\<rparr>) fs0
       = generate_pass e (req\<lparr>expiryDate := None\<rparr>) fs0
   \<and> (build_pass e req = Inr m \<and> template e = Some t0 \<longrightarrow>
        (serviceType req = Some [] \<longrightarrow>
           secondaryFields (coupon m) = secondaryFields (coupon t0))
        \<and> (expiryDate req = Some [] \<longrightarrow>
             headerFields (coupon m) = headerFields (coupon t0)))"
proof (intro conjI)
  have strip_same:
    "process_strip e (req\<lparr>serviceType := x\<rparr>) fs0 = process_strip e req fs0"
    "process_strip e (req\<lparr>expiryDate := x\<rparr>) fs0 = process_strip e req fs0" for x
    by (simp_all add: process_strip_def cong: option.case_cong if_cong)
  have url_same:
    "downloadUrl e (req\<lparr>serviceType := x\<rparr>) = downloadUrl e req"
    "downloadUrl e (req\<lparr>expiryDate := x\<rparr>) = downloadUrl e req" for x
    by (simp_all add: downloadUrl_def)
  show b1: "build_pass e (req\<lparr>serviceType := Some []\<rparr>) = build_pass e (req\<lparr>serviceType := None\<rparr>)"
    by (simp add: build_pass_def truthy_def the_barcode_def downloadUrl_def Let_def
        cong: option.case_cong sum.case_cong if_cong)
  show b2: "build_pass e (req\<lparr>expiryDate := Some []\<rparr>) = build_pass e (req\<lparr>expiryDate := None\<rparr>)"
    by (simp add: build_pass_def truthy_def the_barcode_def downloadUrl_def Let_def
        cong: option.case_cong sum.case_cong if_cong)
  show "generate_pass e (req\<lparr>serviceType := Some []\<rparr>) fs0
       = generate_pass e (req\<lparr>serviceType := None\<rparr>) fs0"
    unfolding generate_pass_def try_body_def b1 strip_same url_same by (rule refl)
  show "generate_pass e (req\<lparr>expiryDate := Some []\<rparr>) fs0
       = generate_pass e (req\<lparr>expiryDate := None\<rparr>) fs0"
    unfolding generate_pass_def try_body_def b2 strip_same url_same by (rule refl)
  show "build_pass e req = Inr m \<and> template e = Some t0 \<longrightarrow>
        (serviceType req = Some [] \<longrightarrow>
           secondaryFields (coupon m) = secondaryFields (coupon t0))
        \<and> (expiryDate req = Some [] \<longrightarrow>
             headerFields (coupon m) = headerFields (coupon t0))"
  proof (intro impI)
    assume a: "build_pass e req = Inr m \<and> template e = Some t0"
    then have m: "build_pass e req = Inr m" and t0: "template e = Some t0"
      by simp_all
    from build_pass_Inr [OF m] t0 obtain hf sf where
      "(if truthy (serviceType req)
        then set_value0 (secondaryFields (coupon t0)) (to_jsval (serviceType req))
        else Inr (secondaryFields (coupon t0))) = Inr sf"
      "(case expiryDate req of
          None \<Rightarrow> Inr (headerFields (coupon t0))
        | Some s \<Rightarrow>
            if s = [] then Inr (headerFields (coupon t0))
            else set_value0 (headerFields (coupon t0)) (JDate (expirationDate e s))) = Inr hf"
      "secondaryFields (coupon m) = sf" "headerFields (coupon m) = hf"
      by auto
    then show "(serviceType req = Some [] \<longrightarrow>
           secondaryFields (coupon m) = secondaryFields (coupon t0))
        \<and> (expiryDate req = Some [] \<longrightarrow>
             headerFields (coupon m) = headerFields (coupon t0))"
      by (auto simp: truthy_def)
  qed
qed

theorem empty_text_is_absent_witness:
  "build_pass example_env empty_texts_request = Inr minimal_manifest
   \<and> template example_env = Some example_template
   \<and> serviceType empty_texts_request = Some []
   \<and> expiryDate empty_texts_request = Some []
   \<and> secondaryFields (coupon minimal_manifest) = secondaryFields (coupon example_template)
   \<and> headerFields (coupon minimal_manifest) = headerFields (coupon example_template)"
  using empty_text_is_absent [of example_env empty_texts_request Map.empty minimal_manifest
      example_template]
  by (simp add: build_pass_empty_texts example_env_simps empty_texts_request_simps)

end
